theory Spec2Isabelle
  imports Complex_Main
begin

section \<open>The training driver of \<^verbatim>\<open>movear/models/trainer.py\<close>\<close>

text \<open>
  The driver is modelled per process (rank). Counts (epochs, iterations, global steps) are
  natural numbers; \<^verbatim>\<open>args.ac\<close>, \<^verbatim>\<open>args.pg0\<close> and the stage index
  \<^verbatim>\<open>prog_si\<close> are Python integers; \<^verbatim>\<open>args.wp\<close>, \<^verbatim>\<open>args.pg\<close> and all
  metrics are Python floats, idealised as reals (finite values, exact arithmetic).
  Calls into collaborators (sampler, scheduler, trainer, logger, \<^verbatim>\<open>dist\<close>, file system)
  are recorded as events, in program order; what the collaborators return is an input of
  the model. Printing, the progress bar, the meters, \<^verbatim>\<open>tb_lg.update\<close> and the
  telemetry fields written into \<^verbatim>\<open>args\<close> do not influence control flow and are left
  out; collaborators are taken to return normally.
\<close>

datatype py_error = ZeroDivisionError | AttributeError

subsection \<open>Configuration and values\<close>

text \<open>The fields of \<^verbatim>\<open>args\<close> that the driver's control flow reads.\<close>

record args =
  args_ep :: nat
  args_ac :: int
  args_pg :: real
  args_pg0 :: int
  args_wp :: real
  args_patch_nums :: "nat list"

text \<open>
  What \<^verbatim>\<open>build_everything\<close> hands to \<^verbatim>\<open>main_training\<close>, and the process's role.
  \<open>tb_lg\<close> is \<open>False\<close> where line 26 leaves \<^verbatim>\<open>tb_lg = None\<close>, that is on every
  process with \<^verbatim>\<open>dist.is_master()\<close> false. \<open>has_set_epoch\<close> is the test of line 274.
\<close>

record built =
  tb_lg :: bool
  is_local_master :: bool
  has_set_epoch :: bool
  start_ep :: nat
  start_it :: nat
  iters_train :: nat

text \<open>The entries of the \<^verbatim>\<open>stats\<close> dictionary that \<^verbatim>\<open>main_training\<close> reads (line 284).\<close>

record ep_stats =
  Lm :: real
  Lt :: real
  Accm :: real
  Acct :: real
  tnm :: real

text \<open>The first four components of the tuple returned by \<^verbatim>\<open>trainer.evaluate\<close>.\<close>

record val_stats =
  val_loss_mean :: real
  val_loss_tail :: real
  val_acc_mean :: real
  val_acc_tail :: real

text \<open>The dictionary written by \<^verbatim>\<open>torch.save\<close> (lines 310 to 315).\<close>

record ('t, 'a) ckpt =
  ckpt_epoch :: nat
  ckpt_iter :: nat
  ckpt_trainer :: 't
  ckpt_args :: 'a

text \<open>
  The collaborators' answers, indexed by the epoch in which they are asked:
  the aggregated meters of an epoch, the validation result, and the two state
  dictionaries serialised into a checkpoint.
\<close>

record ('t, 'a) collab =
  meters :: "nat \<Rightarrow> ep_stats"
  evaluate :: "nat \<Rightarrow> val_stats"
  trainer_state_dict :: "nat \<Rightarrow> 't"
  args_state_dict :: "nat \<Rightarrow> 'a"

text \<open>The eight best-so-far variables of lines 269 and 270.\<close>

record best =
  best_L_mean :: real
  best_L_tail :: real
  best_acc_mean :: real
  best_acc_tail :: real
  best_val_loss_mean :: real
  best_val_loss_tail :: real
  best_val_acc_mean :: real
  best_val_acc_tail :: real

datatype ('t, 'a) event =
    Sampler_set_epoch nat
  | Tb_set_step nat
  | Lr_wd_annealing nat
  | Train_step nat nat bool int
  | Evaluate
  | Torch_save "('t, 'a) ckpt"
  | Copy_last_to_best
  | Barrier
  | Dump_log
  | Tb_flush
  | Tb_close
  | Finalize
  | Close_std

subsection \<open>One iteration\<close>

text \<open>Python 3 \<^verbatim>\<open>round\<close> on a float: to the nearest integer, ties to the even one.\<close>

definition py_round :: "real \<Rightarrow> int" where
  "py_round x =
     (let f = \<lfloor>x\<rfloor>; d = x - of_int f
      in if d < 1 / 2 then f else if 1 / 2 < d then f + 1 else if even f then f else f + 1)"

text \<open>Lines 187 and 191 to 199; \<open>g_it\<close> is the global step of line 178.\<close>

definition prog_si_of :: "args \<Rightarrow> nat \<Rightarrow> nat \<Rightarrow> int" where
  "prog_si_of a iters g_it =
     (let wp_it = args_wp a * real iters;
          max_it = args_ep a * iters
      in if args_pg a \<noteq> 0 then
           (if real g_it \<le> wp_it then args_pg0 a
            else if real max_it * args_pg a \<le> real g_it then int (length (args_patch_nums a)) - 1
            else
              (let delta = int (length (args_patch_nums a)) - 1 - args_pg0 a;
                   progress = min (max ((real g_it - wp_it) / (real max_it * args_pg a - wp_it)) 0) 1
               in args_pg0 a + py_round (progress * of_int delta)))
         else - 1)"

text \<open>Line 201; Python's \<^verbatim>\<open>%\<close> raises on a zero divisor and otherwise takes the divisor's sign,
  as \<open>mod\<close> on \<open>int\<close> does.\<close>

definition stepping_of :: "int \<Rightarrow> nat \<Rightarrow> py_error + bool" where
  "stepping_of n g_it =
     (if n = 0 then Inl ZeroDivisionError else Inr ((int g_it + 1) mod n = 0))"

subsection \<open>One epoch: \<^verbatim>\<open>train_one_ep\<close>\<close>

text \<open>
  Modelled from the spec: \<^verbatim>\<open>misc.MetricLogger.log_every\<close> is not part of the sources.
  The sampler's sequence is advanced to the resume point and consumers slice it by
  iteration count (section 4.1), so the iteration indices handed out for one epoch are
  \<open>start_it, ..., max_iters - 1\<close>, one batch each.
\<close>

definition log_every :: "nat \<Rightarrow> nat \<Rightarrow> nat list" where
  "log_every s_it max_iters = [s_it..<max_iters]"

text \<open>Lines 164 to 169: the generator skips what lies before the start iteration.\<close>

definition get_batches_with_progress :: "nat \<Rightarrow> nat \<Rightarrow> nat list" where
  "get_batches_with_progress s_it iters = filter (\<lambda>it. \<not> it < s_it) (log_every s_it iters)"

text \<open>
  The body of the loop of line 177, over the iterations still to come. The scheduler is
  called first (line 188), then \<^verbatim>\<open>stepping\<close> is computed (line 201, which may raise),
  then \<^verbatim>\<open>trainer.train_step\<close> runs (line 204) and the logger is used (line 210, which
  raises on \<^verbatim>\<open>None\<close>).
\<close>

fun train_loop ::
  "args \<Rightarrow> bool \<Rightarrow> nat \<Rightarrow> nat \<Rightarrow> nat list \<Rightarrow> ('t, 'a) event list \<times> py_error option" where
  "train_loop a tb ep iters [] = ([], None)"
| "train_loop a tb ep iters (it # its) =
     (let g_it = ep * iters + it
      in case stepping_of (args_ac a) g_it of
           Inl e \<Rightarrow> ([Lr_wd_annealing g_it], Some e)
         | Inr stepping \<Rightarrow>
             if \<not> tb then
               ([Lr_wd_annealing g_it, Train_step it g_it stepping (prog_si_of a iters g_it)],
                Some AttributeError)
             else
               (let (evs, r) = train_loop a tb ep iters its
                in (Lr_wd_annealing g_it # Train_step it g_it stepping (prog_si_of a iters g_it)
                      # Tb_set_step g_it # evs, r)))"

definition train_one_ep ::
  "('t, 'a) collab \<Rightarrow> nat \<Rightarrow> bool \<Rightarrow> nat \<Rightarrow> args \<Rightarrow> bool \<Rightarrow> nat
     \<Rightarrow> ('t, 'a) event list \<times> (py_error + ep_stats)" where
  "train_one_ep c ep is_first_ep s_it a tb iters =
     (case train_loop a tb ep iters (get_batches_with_progress s_it iters) of
        (evs, Some e) \<Rightarrow> (evs, Inl e)
      | (evs, None) \<Rightarrow> (evs, Inr (meters c ep)))"

subsection \<open>The epoch driver: \<^verbatim>\<open>main_training\<close>\<close>

definition best_init :: best where
  "best_init =
     \<lparr>best_L_mean = 999, best_L_tail = 999, best_acc_mean = - 1, best_acc_tail = - 1,
      best_val_loss_mean = 999, best_val_loss_tail = 999,
      best_val_acc_mean = - 1, best_val_acc_tail = - 1\<rparr>"

text \<open>Lines 285 and 286.\<close>

definition update_train :: "best \<Rightarrow> ep_stats \<Rightarrow> best" where
  "update_train b s =
     (let b1 = b\<lparr>best_L_mean := min (best_L_mean b) (Lm s),
                 best_acc_mean := max (best_acc_mean b) (Accm s)\<rparr>
      in if Lt s \<noteq> - 1
         then b1\<lparr>best_L_tail := min (best_L_tail b1) (Lt s),
                 best_acc_tail := max (best_acc_tail b1) (Acct s)\<rparr>
         else b1)"

text \<open>Lines 300 and 301.\<close>

definition update_val :: "best \<Rightarrow> val_stats \<Rightarrow> best" where
  "update_val b v =
     b\<lparr>best_val_loss_mean := min (best_val_loss_mean b) (val_loss_mean v),
       best_val_loss_tail := min (best_val_loss_tail b) (val_loss_tail v),
       best_val_acc_mean := max (best_val_acc_mean b) (val_acc_mean v),
       best_val_acc_tail := max (best_val_acc_tail b) (val_acc_tail v)\<rparr>"

text \<open>Line 296.\<close>

definition is_val_and_also_saving :: "args \<Rightarrow> nat \<Rightarrow> bool" where
  "is_val_and_also_saving a ep \<longleftrightarrow> (ep + 1) mod 10 = 0 \<or> ep + 1 = args_ep a"

text \<open>Line 299.\<close>

definition best_updated :: "best \<Rightarrow> val_stats \<Rightarrow> bool" where
  "best_updated b v \<longleftrightarrow> val_loss_tail v < best_val_loss_tail b"

text \<open>Lines 298 to 319, the block under \<^verbatim>\<open>if is_val_and_also_saving\<close>.\<close>

definition validate_and_save ::
  "('t, 'a) collab \<Rightarrow> built \<Rightarrow> nat \<Rightarrow> best \<Rightarrow> ('t, 'a) event list \<times> best" where
  "validate_and_save c x ep b =
     (let v = evaluate c ep
      in (Evaluate #
          (if is_local_master x
           then Torch_save \<lparr>ckpt_epoch = ep + 1, ckpt_iter = 0,
                            ckpt_trainer = trainer_state_dict c ep,
                            ckpt_args = args_state_dict c ep\<rparr>
                  # (if best_updated b v then [Copy_last_to_best] else [])
           else [])
          @ [Barrier],
          update_val b v))"

text \<open>
  The body of the loop of line 273, over the epochs still to come. Without a logger the
  first \<^verbatim>\<open>tb_lg.set_step\<close> (line 278) raises.
\<close>

fun epoch_loop ::
  "('t, 'a) collab \<Rightarrow> args \<Rightarrow> built \<Rightarrow> nat list \<Rightarrow> best
     \<Rightarrow> ('t, 'a) event list \<times> (py_error + best)" where
  "epoch_loop c a x [] b = ([], Inr b)"
| "epoch_loop c a x (ep # eps) b =
     (let pre = (if has_set_epoch x then [Sampler_set_epoch ep] else [])
      in if \<not> tb_lg x then (pre, Inl AttributeError)
         else
           (case train_one_ep c ep (ep = start_ep x) (if ep = start_ep x then start_it x else 0)
                   a (tb_lg x) (iters_train x) of
              (evs, Inl e) \<Rightarrow> (pre @ Tb_set_step (ep * iters_train x) # evs, Inl e)
            | (evs, Inr stats) \<Rightarrow>
                (let b1 = update_train b stats;
                     (vevs, b2) = (if is_val_and_also_saving a ep
                                   then validate_and_save c x ep b1 else ([], b1));
                     (rest, r) = epoch_loop c a x eps b2
                 in (pre @ Tb_set_step (ep * iters_train x) # evs @ vevs
                       @ [Dump_log, Tb_flush] @ rest, r))))"

text \<open>Lines 269 to 332: the loop over \<^verbatim>\<open>range(start_ep, args.ep)\<close>, then the final flush.\<close>

definition main_training ::
  "('t, 'a) collab \<Rightarrow> args \<Rightarrow> built \<Rightarrow> ('t, 'a) event list \<times> (py_error + best)" where
  "main_training c a x =
     (case epoch_loop c a x [start_ep x..<args_ep a] best_init of
        (evs, Inl e) \<Rightarrow> (evs, Inl e)
      | (evs, Inr b) \<Rightarrow>
          if \<not> tb_lg x then (evs @ [Dump_log], Inl AttributeError)
          else (evs @ [Dump_log, Tb_flush, Tb_close, Barrier], Inr b))"

text \<open>
  Lines 352 to 358: \<^verbatim>\<open>try: main_training() finally: ...\<close>. The flag says whether
  standard output and error are \<^verbatim>\<open>SyncPrint\<close> objects.
\<close>

definition program ::
  "('t, 'a) collab \<Rightarrow> args \<Rightarrow> built \<Rightarrow> bool \<Rightarrow> ('t, 'a) event list \<times> (py_error + best)" where
  "program c a x sync_print =
     (case main_training c a x of
        (evs, r) \<Rightarrow> (evs @ Finalize # (if sync_print then [Close_std] else []), r))"

section \<open>Reading a trace\<close>




fun is_ckpt_write :: "('t, 'a) event \<Rightarrow> bool" where
  "is_ckpt_write (Torch_save k) = True"
| "is_ckpt_write Copy_last_to_best = True"
| "is_ckpt_write _ = False"

fun is_evaluate :: "('t, 'a) event \<Rightarrow> bool" where
  "is_evaluate Evaluate = True"
| "is_evaluate _ = False"

text \<open>The events that belong to the validation block of an epoch.\<close>

fun is_val_event :: "('t, 'a) event \<Rightarrow> bool" where
  "is_val_event Evaluate = True"
| "is_val_event (Torch_save k) = True"
| "is_val_event Copy_last_to_best = True"
| "is_val_event _ = False"

text \<open>
  The order of a process's checkpoint-related calls, as an automaton over the trace: every
  \<open>Evaluate\<close> is followed at once by the write of the last checkpoint and possibly the
  copy to the best one (local leader only), or by nothing (any other process), and then
  by \<open>Barrier\<close>; no write or copy stands elsewhere, and nothing else stands in between.
\<close>

datatype phase = Idle | Evaluated | Saved | Copied

fun save_step :: "bool \<Rightarrow> phase \<Rightarrow> ('t, 'a) event \<Rightarrow> phase option" where
  "save_step lm Idle e =
     (case e of Evaluate \<Rightarrow> Some Evaluated | Torch_save k \<Rightarrow> None
      | Copy_last_to_best \<Rightarrow> None | _ \<Rightarrow> Some Idle)"
| "save_step lm Evaluated e =
     (case e of Torch_save k \<Rightarrow> (if lm then Some Saved else None)
      | Barrier \<Rightarrow> (if lm then None else Some Idle) | _ \<Rightarrow> None)"
| "save_step lm Saved e =
     (case e of Copy_last_to_best \<Rightarrow> Some Copied | Barrier \<Rightarrow> Some Idle | _ \<Rightarrow> None)"
| "save_step lm Copied e = (case e of Barrier \<Rightarrow> Some Idle | _ \<Rightarrow> None)"

fun save_order :: "bool \<Rightarrow> phase \<Rightarrow> ('t, 'a) event list \<Rightarrow> bool" where
  "save_order lm ph [] \<longleftrightarrow> ph = Idle"
| "save_order lm ph (e # tr) \<longleftrightarrow>
     (case save_step lm ph e of None \<Rightarrow> False | Some ph' \<Rightarrow> save_order lm ph' tr)"

text \<open>The calls of one iteration that returns normally (lines 188, 204 and 210).\<close>

definition iter_events :: "args \<Rightarrow> nat \<Rightarrow> nat \<Rightarrow> nat \<Rightarrow> ('t, 'a) event list" where
  "iter_events a iters ep it =
     [Lr_wd_annealing (ep * iters + it),
      Train_step it (ep * iters + it) ((int (ep * iters + it) + 1) mod args_ac a = 0)
        (prog_si_of a iters (ep * iters + it)),
      Tb_set_step (ep * iters + it)]"


text \<open>The dictionary that epoch \<open>ep\<close> serialises (lines 310 to 315).\<close>

definition ckpt_of :: "('t, 'a) collab \<Rightarrow> nat \<Rightarrow> ('t, 'a) ckpt" where
  "ckpt_of c ep =
     \<lparr>ckpt_epoch = ep + 1, ckpt_iter = 0, ckpt_trainer = trainer_state_dict c ep,
      ckpt_args = args_state_dict c ep\<rparr>"

text \<open>The iteration at which epoch \<open>ep\<close> starts (line 281).\<close>

definition first_it :: "built \<Rightarrow> nat \<Rightarrow> nat" where
  "first_it x ep = (if ep = start_ep x then start_it x else 0)"

text \<open>The best-so-far variables after one more epoch, and after a list of epochs.\<close>

definition epoch_best :: "('t, 'a) collab \<Rightarrow> args \<Rightarrow> nat \<Rightarrow> best \<Rightarrow> best" where
  "epoch_best c a ep b =
     (let b1 = update_train b (meters c ep)
      in if is_val_and_also_saving a ep then update_val b1 (evaluate c ep) else b1)"

fun best_after :: "('t, 'a) collab \<Rightarrow> args \<Rightarrow> nat list \<Rightarrow> best \<Rightarrow> best" where
  "best_after c a [] b = b"
| "best_after c a (ep # eps) b = best_after c a eps (epoch_best c a ep b)"

text \<open>The events of one epoch, and of a list of epochs, when nothing raises.\<close>

definition epoch_events ::
  "('t, 'a) collab \<Rightarrow> args \<Rightarrow> built \<Rightarrow> nat \<Rightarrow> best \<Rightarrow> ('t, 'a) event list" where
  "epoch_events c a x ep b =
     (if has_set_epoch x then [Sampler_set_epoch ep] else [])
     @ Tb_set_step (ep * iters_train x)
     # concat (map (iter_events a (iters_train x) ep) [first_it x ep..<iters_train x])
     @ (if is_val_and_also_saving a ep
        then fst (validate_and_save c x ep (update_train b (meters c ep))) else [])
     @ [Dump_log, Tb_flush]"

fun run_events ::
  "('t, 'a) collab \<Rightarrow> args \<Rightarrow> built \<Rightarrow> nat list \<Rightarrow> best \<Rightarrow> ('t, 'a) event list" where
  "run_events c a x [] b = []"
| "run_events c a x (ep # eps) b =
     epoch_events c a x ep b @ run_events c a x eps (epoch_best c a ep b)"

section \<open>Inputs used to exercise the theorems\<close>

definition collab_ex :: "(unit, unit) collab" where
  "collab_ex =
     \<lparr>meters = (\<lambda>ep. \<lparr>Lm = 3, Lt = 4, Accm = 10, Acct = 5, tnm = 1\<rparr>),
      evaluate = (\<lambda>ep. \<lparr>val_loss_mean = 3, val_loss_tail = 2, val_acc_mean = 1, val_acc_tail = 1\<rparr>),
      trainer_state_dict = (\<lambda>ep. ()), args_state_dict = (\<lambda>ep. ())\<rparr>"

definition args_ex :: args where
  "args_ex = \<lparr>args_ep = 2, args_ac = 2, args_pg = 0, args_pg0 = 0, args_wp = 0,
              args_patch_nums = [1, 2, 3]\<rparr>"

definition built_ex :: built where
  "built_ex = \<lparr>tb_lg = True, is_local_master = True, has_set_epoch = True,
               start_ep = 0, start_it = 1, iters_train = 3\<rparr>"

definition built_ten :: built where
  "built_ten = \<lparr>tb_lg = True, is_local_master = True, has_set_epoch = False,
                start_ep = 0, start_it = 0, iters_train = 10\<rparr>"

text \<open>A warm-up of one epoch in a run of one epoch, with the curriculum ending half-way.\<close>

definition args_warm :: args where
  "args_warm = \<lparr>args_ep = 1, args_ac = 1, args_pg = 1 / 2, args_pg0 = 0, args_wp = 1,
                args_patch_nums = [1, 2, 3]\<rparr>"

text \<open>A first stage beyond the last of three stages.\<close>

definition args_high :: args where
  "args_high = \<lparr>args_ep = 1, args_ac = 1, args_pg = 1, args_pg0 = 5, args_wp = 0,
                args_patch_nums = [1, 2, 3]\<rparr>"

text \<open>A curriculum over the first half of the run, from stage 0 to stage 2.\<close>

definition args_prog :: args where
  "args_prog = \<lparr>args_ep = 1, args_ac = 1, args_pg = 1 / 2, args_pg0 = 0, args_wp = 0,
                args_patch_nums = [1, 2, 3]\<rparr>"

text \<open>
  Forty epochs of one iteration each, so that validation runs after epochs 9, 19, 29 and
  39, with validation tail-losses 2.0, 1.5, 1.8 and 1.2.
\<close>

definition collab_val :: "(unit, unit) collab" where
  "collab_val =
     \<lparr>meters = (\<lambda>ep. \<lparr>Lm = 4 - real ep / 20, Lt = 5 - real ep / 20, Accm = real ep,
                      Acct = real ep / 2, tnm = 1\<rparr>),
      evaluate = (\<lambda>ep. \<lparr>val_loss_mean = 3,
                        val_loss_tail = (if ep = 9 then 2 else if ep = 19 then 3 / 2
                                         else if ep = 29 then 9 / 5 else 6 / 5),
                        val_acc_mean = 50, val_acc_tail = 40\<rparr>),
      trainer_state_dict = (\<lambda>ep. ()), args_state_dict = (\<lambda>ep. ())\<rparr>"

definition args_forty :: args where
  "args_forty = \<lparr>args_ep = 40, args_ac = 1, args_pg = 0, args_pg0 = 0, args_wp = 0,
                 args_patch_nums = [1, 2, 3]\<rparr>"

definition built_one :: built where
  "built_one = \<lparr>tb_lg = True, is_local_master = True, has_set_epoch = False,
                start_ep = 0, start_it = 0, iters_train = 1\<rparr>"




text \<open>A zero accumulation count, and a process that is neither master nor local leader.\<close>

definition args_zero :: args where
  "args_zero = \<lparr>args_ep = 2, args_ac = 0, args_pg = 0, args_pg0 = 0, args_wp = 0,
                args_patch_nums = [1, 2, 3]\<rparr>"

definition built_worker :: built where
  "built_worker = \<lparr>tb_lg = False, is_local_master = False, has_set_epoch = True,
                   start_ep = 0, start_it = 0, iters_train = 3\<rparr>"

section \<open>Properties\<close>

subsection \<open>Runs in which nothing raises\<close>

lemma get_batches_eq: "get_batches_with_progress s n = [s..<n]"
  by (auto simp: get_batches_with_progress_def log_every_def filter_id_conv)

lemma train_loop_ok:
  "tb \<Longrightarrow> args_ac a \<noteq> 0 \<Longrightarrow>
   train_loop a tb ep n its = (concat (map (iter_events a n ep) its), None)"
  by (induction its) (simp_all add: stepping_of_def iter_events_def Let_def)

lemma train_one_ep_ok:
  "tb \<Longrightarrow> args_ac a \<noteq> 0 \<Longrightarrow>
   train_one_ep c ep f s a tb n = (concat (map (iter_events a n ep) [s..<n]), Inr (meters c ep))"
  by (simp add: train_one_ep_def train_loop_ok get_batches_eq)

lemma snd_validate_and_save: "snd (validate_and_save c x ep b) = update_val b (evaluate c ep)"
  by (simp add: validate_and_save_def Let_def)

lemma epoch_loop_ok:
  "tb_lg x \<Longrightarrow> args_ac a \<noteq> 0 \<Longrightarrow>
   epoch_loop c a x eps b = (run_events c a x eps b, Inr (best_after c a eps b))"
proof (induction eps arbitrary: b)
  case Nil
  then show ?case by simp
next
  case (Cons ep eps)
  have ih: "\<And>b'. epoch_loop c a x eps b' = (run_events c a x eps b', Inr (best_after c a eps b'))"
    using Cons.IH Cons.prems by blast
  show ?case
    using Cons.prems
    by (simp add: train_one_ep_ok epoch_events_def epoch_best_def first_it_def Let_def
        split_beta snd_validate_and_save ih)
qed

lemma main_training_ok:
  "tb_lg x \<Longrightarrow> args_ac a \<noteq> 0 \<Longrightarrow>
   main_training c a x =
     (run_events c a x [start_ep x..<args_ep a] best_init @ [Dump_log, Tb_flush, Tb_close, Barrier],
      Inr (best_after c a [start_ep x..<args_ep a] best_init))"
  by (simp add: main_training_def epoch_loop_ok)

subsection \<open>What a trace can contain\<close>

lemma train_loop_Train_step:
  "Train_step it g s p \<in> set (fst (train_loop a tb ep n its)) \<Longrightarrow>
   it \<in> set its \<and> g = ep * n + it \<and> stepping_of (args_ac a) g = Inr s \<and> p = prog_si_of a n g"
  by (induction its) (auto simp: Let_def split: sum.splits if_splits prod.splits)

lemma train_loop_Lr_wd_annealing:
  "Lr_wd_annealing g \<in> set (fst (train_loop a tb ep n its)) \<Longrightarrow> \<exists>it\<in>set its. g = ep * n + it"
  by (induction its) (auto simp: Let_def split: sum.splits if_splits prod.splits)

lemma fst_train_one_ep:
  "fst (train_one_ep c ep f s a tb n) = fst (train_loop a tb ep n [s..<n])"
  by (simp add: train_one_ep_def get_batches_eq split: prod.splits option.splits)

lemma validate_and_save_no_train:
  "Train_step it g s p \<notin> set (fst (validate_and_save c x ep b))"
  by (simp add: validate_and_save_def Let_def)

lemma epoch_loop_Train_step:
  "Train_step it g s p \<in> set (fst (epoch_loop c a x eps b)) \<Longrightarrow>
   \<exists>ep\<in>set eps. first_it x ep \<le> it \<and> it < iters_train x \<and> g = ep * iters_train x + it
      \<and> stepping_of (args_ac a) g = Inr s \<and> p = prog_si_of a (iters_train x) g"
proof (induction eps arbitrary: b)
  case Nil
  then show ?case by simp
next
  case (Cons ep eps)
  let ?e = "Train_step it g s p :: ('a, 'b) event"
  let ?t = "train_one_ep c ep (ep = start_ep x) (first_it x ep) a (tb_lg x) (iters_train x)"
  have here: "?e \<in> set (fst ?t) \<Longrightarrow> ?case"
    using train_loop_Train_step [of it g s p a "tb_lg x" ep "iters_train x" "[first_it x ep..<iters_train x]"]
    by (auto simp: fst_train_one_ep)
  have there: "\<And>b'. ?e \<in> set (fst (epoch_loop c a x eps b')) \<Longrightarrow> ?case"
    using Cons.IH by fastforce
  obtain evs r where t: "?t = (evs, r)" by (cases ?t)
  show ?case
  proof (cases "tb_lg x")
    case False
    then show ?thesis using Cons.prems by (simp add: Let_def)
  next
    case True
    show ?thesis
    proof (cases r)
      case (Inl e)
      then have "?e \<in> set evs"
        using Cons.prems True t by (simp add: Let_def first_it_def split: if_splits)
      then show ?thesis using here t by simp
    next
      case (Inr st)
      define b2 where "b2 = (if is_val_and_also_saving a ep
          then snd (validate_and_save c x ep (update_train b st)) else update_train b st)"
      have "?e \<in> set evs \<or> ?e \<in> set (fst (epoch_loop c a x eps b2))"
        using Cons.prems True t Inr
        by (simp add: Let_def first_it_def b2_def split_beta validate_and_save_no_train
            split: if_splits)
      then show ?thesis using here there t by auto
    qed
  qed
qed

lemma main_training_Train_step:
  "Train_step it g s p \<in> set (fst (main_training c a x)) \<Longrightarrow>
   \<exists>ep\<in>{start_ep x..<args_ep a}. first_it x ep \<le> it \<and> it < iters_train x
      \<and> g = ep * iters_train x + it
      \<and> stepping_of (args_ac a) g = Inr s \<and> p = prog_si_of a (iters_train x) g"
  using epoch_loop_Train_step [of it g s p c a x "[start_ep x..<args_ep a]" best_init]
  by (auto simp: main_training_def split: prod.splits sum.splits if_splits)

subsection \<open>Gradient accumulation\<close>

lemma last_of_window:
  fixes n k j :: nat
  assumes "0 < n" "k * n \<le> j" "j < (k + 1) * n"
  shows "(j + 1) mod n = 0 \<longleftrightarrow> j = (k + 1) * n - 1"
proof
  assume "(j + 1) mod n = 0"
  then obtain m where m: "j + 1 = m * n" by (auto simp: mod_eq_0_iff_dvd dvd_def mult.commute)
  have "k * n < m * n" using assms m by linarith
  then have "k < m" by simp
  moreover have "m * n \<le> (k + 1) * n" using assms m by linarith
  then have "m \<le> k + 1" using assms(1) mult_le_cancel2 [of m n "k + 1"] by blast
  ultimately have "m = k + 1" by linarith
  then show "j = (k + 1) * n - 1" using m by (metis add_diff_cancel_right')
next
  assume "j = (k + 1) * n - 1"
  then have "j + 1 = (k + 1) * n" using assms by simp
  then show "(j + 1) mod n = 0" by simp
qed

lemma stepping_of_nat:
  assumes "0 < n"
  shows "stepping_of (int n) j = Inr ((j + 1) mod n = 0)"
proof -
  have "(int j + 1) mod int n = int ((j + 1) mod n)"
    by (simp add: zmod_int add.commute)
  then show ?thesis using assms by (simp add: stepping_of_def)
qed

lemma window_stepping:
  assumes "0 < n"
  shows "{j. k * n \<le> j \<and> j < (k + 1) * n \<and> stepping_of (int n) j = Inr True} = {(k + 1) * n - 1}"
proof (rule set_eqI)
  fix j
  have in_window: "k * n \<le> (k + 1) * n - 1" "(k + 1) * n - 1 < (k + 1) * n"
    using assms by (simp_all add: algebra_simps)
  show "j \<in> {j. k * n \<le> j \<and> j < (k + 1) * n \<and> stepping_of (int n) j = Inr True}
      \<longleftrightarrow> j \<in> {(k + 1) * n - 1}"
  proof (cases "k * n \<le> j \<and> j < (k + 1) * n")
    case True
    then have "(j + 1) mod n = 0 \<longleftrightarrow> j = (k + 1) * n - 1"
      using last_of_window [OF assms, of k j] by simp
    then show ?thesis using True by (simp add: stepping_of_nat [OF assms])
  next
    case False
    then have "j \<noteq> (k + 1) * n - 1" using in_window by auto
    then show ?thesis using False by auto
  qed
qed

text \<open>
  Claim C4. Whenever \<^verbatim>\<open>trainer.train_step\<close> is called, in any epoch of any run, the
  accumulation count is not zero, \<open>stepping\<close> is true exactly when \<open>g_it + 1\<close> is divisible
  by \<^verbatim>\<open>args.ac\<close>, and \<open>g_it\<close> is the global step \<open>ep * iters_train + it\<close> of the
  current position. For a positive count, each window of \<^verbatim>\<open>args.ac\<close> consecutive global
  steps holds exactly one stepping index, its last.
\<close>

theorem train_step_stepping:
  assumes "Train_step it g s p \<in> set (fst (main_training c a x))"
  shows "args_ac a \<noteq> 0 \<and> (s \<longleftrightarrow> (int g + 1) mod args_ac a = 0)
     \<and> (\<exists>ep\<in>{start_ep x..<args_ep a}. it < iters_train x \<and> g = ep * iters_train x + it)
     \<and> (0 < args_ac a \<longrightarrow>
          (\<forall>k. {j. k * nat (args_ac a) \<le> j \<and> j < (k + 1) * nat (args_ac a)
                  \<and> stepping_of (args_ac a) j = Inr True} = {(k + 1) * nat (args_ac a) - 1}))"
proof -
  from main_training_Train_step [OF assms] obtain ep where
    ep: "ep \<in> {start_ep x..<args_ep a}" "it < iters_train x" "g = ep * iters_train x + it"
      "stepping_of (args_ac a) g = Inr s"
    by blast
  have nz: "args_ac a \<noteq> 0" using ep(4) by (auto simp: stepping_of_def split: if_splits)
  have st: "s \<longleftrightarrow> (int g + 1) mod args_ac a = 0"
    using ep(4) by (auto simp: stepping_of_def split: if_splits)
  have win: "0 < args_ac a \<longrightarrow>
          (\<forall>k. {j. k * nat (args_ac a) \<le> j \<and> j < (k + 1) * nat (args_ac a)
                  \<and> stepping_of (args_ac a) j = Inr True} = {(k + 1) * nat (args_ac a) - 1})"
  proof (intro impI allI)
    fix k assume pos: "0 < args_ac a"
    then have "0 < nat (args_ac a)" by simp
    from window_stepping [OF this, of k] pos
    show "{j. k * nat (args_ac a) \<le> j \<and> j < (k + 1) * nat (args_ac a)
                  \<and> stepping_of (args_ac a) j = Inr True} = {(k + 1) * nat (args_ac a) - 1}"
      by simp
  qed
  show ?thesis using nz st ep win by blast
qed

theorem train_step_stepping_witness:
  "Train_step 1 1 True (- 1) \<in> set (fst (main_training collab_ex args_ex built_ex))
   \<and> args_ac args_ex \<noteq> 0 \<and> (int 1 + 1) mod args_ac args_ex = 0
   \<and> {j. 0 * nat (args_ac args_ex) \<le> j \<and> j < (0 + 1) * nat (args_ac args_ex)
          \<and> stepping_of (args_ac args_ex) j = Inr True} = {1}"
proof -
  have m: "Train_step 1 1 True (- 1) \<in> set (fst (main_training collab_ex args_ex built_ex))"
    by (simp add: main_training_def collab_ex_def args_ex_def built_ex_def upt_rec Let_def
        train_one_ep_def get_batches_with_progress_def log_every_def stepping_of_def
        prog_si_of_def is_val_and_also_saving_def validate_and_save_def)
  have pos: "0 < args_ac args_ex" by (simp add: args_ex_def)
  have n: "nat (args_ac args_ex) = 2" by (simp add: args_ex_def)
  from train_step_stepping [OF m] have
    "args_ac args_ex \<noteq> 0" "(int 1 + 1) mod args_ac args_ex = 0"
    "{j. 0 * nat (args_ac args_ex) \<le> j \<and> j < (0 + 1) * nat (args_ac args_ex)
          \<and> stepping_of (args_ac args_ex) j = Inr True} = {(0 + 1) * nat (args_ac args_ex) - 1}"
    using pos by blast+
  then show ?thesis using m n by simp
qed

subsection \<open>The global step\<close>

lemma validate_and_save_no_sched:
  "Lr_wd_annealing g \<notin> set (fst (validate_and_save c x ep b))"
  by (simp add: validate_and_save_def Let_def)

lemma epoch_loop_Lr_wd_annealing:
  "Lr_wd_annealing g \<in> set (fst (epoch_loop c a x eps b)) \<Longrightarrow>
   \<exists>ep\<in>set eps. \<exists>it. first_it x ep \<le> it \<and> it < iters_train x \<and> g = ep * iters_train x + it"
proof (induction eps arbitrary: b)
  case Nil
  then show ?case by simp
next
  case (Cons ep eps)
  let ?e = "Lr_wd_annealing g :: ('a, 'b) event"
  let ?t = "train_one_ep c ep (ep = start_ep x) (first_it x ep) a (tb_lg x) (iters_train x)"
  have here: "?e \<in> set (fst ?t) \<Longrightarrow> ?case"
    by (auto simp: fst_train_one_ep dest!: train_loop_Lr_wd_annealing)
  have there: "\<And>b'. ?e \<in> set (fst (epoch_loop c a x eps b')) \<Longrightarrow> ?case"
    using Cons.IH by fastforce
  obtain evs r where t: "?t = (evs, r)" by (cases ?t)
  show ?case
  proof (cases "tb_lg x")
    case False
    then show ?thesis using Cons.prems by (simp add: Let_def)
  next
    case True
    show ?thesis
    proof (cases r)
      case (Inl e)
      then have "?e \<in> set evs"
        using Cons.prems True t by (simp add: Let_def first_it_def split: if_splits)
      then show ?thesis using here t by simp
    next
      case (Inr st)
      define b2 where "b2 = (if is_val_and_also_saving a ep
          then snd (validate_and_save c x ep (update_train b st)) else update_train b st)"
      have "?e \<in> set evs \<or> ?e \<in> set (fst (epoch_loop c a x eps b2))"
        using Cons.prems True t Inr
        by (simp add: Let_def first_it_def b2_def split_beta validate_and_save_no_sched
            split: if_splits)
      then show ?thesis using here there t by auto
    qed
  qed
qed

lemma main_training_Lr_wd_annealing:
  "Lr_wd_annealing g \<in> set (fst (main_training c a x)) \<Longrightarrow>
   \<exists>ep\<in>{start_ep x..<args_ep a}. \<exists>it. first_it x ep \<le> it \<and> it < iters_train x
      \<and> g = ep * iters_train x + it"
  using epoch_loop_Lr_wd_annealing [of g c a x "[start_ep x..<args_ep a]" best_init]
  by (auto simp: main_training_def split: prod.splits sum.splits if_splits)

text \<open>
  Claim C7. In \<^verbatim>\<open>train_one_ep\<close> for epoch \<open>ep\<close>, the global step handed to the
  trainer at iteration \<open>it\<close> is \<open>ep * iters_train + it\<close>, and every global step handed to
  the scheduler has this form for an iteration of the epoch; in a whole run the epoch is one
  of \<open>start_ep, ..., args.ep - 1\<close> and the iteration lies below \<open>iters_train\<close>.
\<close>

theorem global_step_invariant:
  "(Train_step it g s p \<in> set (fst (train_one_ep c ep f s_it a tb n))
      \<longrightarrow> s_it \<le> it \<and> it < n \<and> g = ep * n + it)
   \<and> (Lr_wd_annealing g' \<in> set (fst (train_one_ep c ep f s_it a tb n))
      \<longrightarrow> (\<exists>it'. s_it \<le> it' \<and> it' < n \<and> g' = ep * n + it'))
   \<and> (Train_step it g s p \<in> set (fst (main_training c a x))
      \<longrightarrow> (\<exists>e\<in>{start_ep x..<args_ep a}. it < iters_train x \<and> g = e * iters_train x + it))
   \<and> (Lr_wd_annealing g' \<in> set (fst (main_training c a x))
      \<longrightarrow> (\<exists>e\<in>{start_ep x..<args_ep a}. \<exists>it'<iters_train x. g' = e * iters_train x + it'))"
proof (intro conjI impI)
  assume "Train_step it g s p \<in> set (fst (train_one_ep c ep f s_it a tb n))"
  then have "it \<in> set [s_it..<n] \<and> g = ep * n + it"
    by (auto simp: fst_train_one_ep dest!: train_loop_Train_step)
  then show "s_it \<le> it" "it < n" "g = ep * n + it" by simp_all
next
  assume "Lr_wd_annealing g' \<in> set (fst (train_one_ep c ep f s_it a tb n))"
  then have "\<exists>it\<in>set [s_it..<n]. g' = ep * n + it"
    by (auto simp: fst_train_one_ep dest!: train_loop_Lr_wd_annealing)
  then show "\<exists>it'. s_it \<le> it' \<and> it' < n \<and> g' = ep * n + it'" by auto
next
  assume "Train_step it g s p \<in> set (fst (main_training c a x))"
  from main_training_Train_step [OF this]
  show "\<exists>e\<in>{start_ep x..<args_ep a}. it < iters_train x \<and> g = e * iters_train x + it"
    by blast
next
  assume "Lr_wd_annealing g' \<in> set (fst (main_training c a x))"
  from main_training_Lr_wd_annealing [OF this]
  show "\<exists>e\<in>{start_ep x..<args_ep a}. \<exists>it'<iters_train x. g' = e * iters_train x + it'"
    by blast
qed

theorem global_step_invariant_witness:
  "Train_step 2 5 True (- 1) \<in> set (fst (train_one_ep collab_ex 1 False 0 args_ex True 3))
   \<and> Lr_wd_annealing 4 \<in> set (fst (train_one_ep collab_ex 1 False 0 args_ex True 3))
   \<and> Train_step 2 5 True (- 1) \<in> set (fst (main_training collab_ex args_ex built_ex))
   \<and> Lr_wd_annealing 4 \<in> set (fst (main_training collab_ex args_ex built_ex))
   \<and> (5::nat) = 1 * 3 + 2
   \<and> (\<exists>it'. 0 \<le> it' \<and> it' < 3 \<and> (4::nat) = 1 * 3 + it')
   \<and> (\<exists>e\<in>{start_ep built_ex..<args_ep args_ex}. (5::nat) = e * iters_train built_ex + 2)
   \<and> (\<exists>e\<in>{start_ep built_ex..<args_ep args_ex}. \<exists>it'<iters_train built_ex.
         (4::nat) = e * iters_train built_ex + it')"
proof -
  have m1: "Train_step 2 5 True (- 1) \<in> set (fst (train_one_ep collab_ex 1 False 0 args_ex True 3))"
    by code_simp
  have m2: "Lr_wd_annealing 4 \<in> set (fst (train_one_ep collab_ex 1 False 0 args_ex True 3))"
    by code_simp
  have m3: "Train_step 2 5 True (- 1) \<in> set (fst (main_training collab_ex args_ex built_ex))"
    by code_simp
  have m4: "Lr_wd_annealing 4 \<in> set (fst (main_training collab_ex args_ex built_ex))"
    by code_simp
  show ?thesis
    using m1 m2 m3 m4
      global_step_invariant [of 2 5 True "- 1" collab_ex 1 False 0 args_ex True 3 4 built_ex]
    by simp
qed

subsection \<open>The progressive-resolution stage\<close>

lemma py_round_mono: "x \<le> y \<Longrightarrow> py_round x \<le> py_round y"
proof -
  assume xy: "x \<le> y"
  have fl: "\<lfloor>x\<rfloor> \<le> \<lfloor>y\<rfloor>" using xy by (rule floor_mono)
  show ?thesis
  proof (cases "\<lfloor>x\<rfloor> = \<lfloor>y\<rfloor>")
    case True
    then have "x - of_int \<lfloor>x\<rfloor> \<le> y - of_int \<lfloor>y\<rfloor>" using xy by simp
    then show ?thesis using True by (auto simp: py_round_def Let_def)
  next
    case False
    then have "\<lfloor>x\<rfloor> + 1 \<le> \<lfloor>y\<rfloor>" using fl by linarith
    moreover have "py_round x \<le> \<lfloor>x\<rfloor> + 1" by (auto simp: py_round_def Let_def)
    moreover have "\<lfloor>y\<rfloor> \<le> py_round y" by (auto simp: py_round_def Let_def)
    ultimately show ?thesis by linarith
  qed
qed

lemma py_round_of_int: "py_round (of_int k) = k"
  by (simp add: py_round_def)

lemma py_round_range:
  assumes "0 \<le> x" "x \<le> of_int d"
  shows "0 \<le> py_round x \<and> py_round x \<le> d"
  using py_round_mono [OF assms(1)] py_round_mono [OF assms(2)]
  by (simp add: py_round_of_int) (metis of_int_0 py_round_of_int)

text \<open>The clamped progress of line 196.\<close>

lemma clamp_range: "0 \<le> min (max (t::real) 0) 1 \<and> min (max t 0) 1 \<le> 1"
  by simp

lemma scaled_range:
  fixes q :: real and d :: int
  assumes "0 \<le> q" "q \<le> 1" "0 \<le> d"
  shows "0 \<le> q * of_int d \<and> q * of_int d \<le> of_int d"
proof -
  have "0 \<le> (of_int d :: real)" using assms(3) by simp
  then show ?thesis using assms(1,2) by (simp add: mult_left_le_one_le mult.commute)
qed

lemma prog_si_of_range:
  assumes "args_pg a \<noteq> 0" "args_pg0 a \<le> int (length (args_patch_nums a)) - 1"
  shows "args_pg0 a \<le> prog_si_of a n g \<and> prog_si_of a n g \<le> int (length (args_patch_nums a)) - 1"
proof -
  define d where "d = int (length (args_patch_nums a)) - 1 - args_pg0 a"
  define q where "q = min (max ((real g - args_wp a * real n)
      / (real (args_ep a * n) * args_pg a - args_wp a * real n)) 0) 1"
  have d: "0 \<le> d" using assms(2) by (simp add: d_def)
  have "0 \<le> q" "q \<le> 1" by (simp_all add: q_def)
  from scaled_range [OF this d] have "0 \<le> py_round (q * of_int d) \<and> py_round (q * of_int d) \<le> d"
    by (intro py_round_range) simp_all
  then show ?thesis
    using assms d unfolding prog_si_of_def Let_def d_def q_def by auto
qed

lemma prog_si_of_mono:
  assumes top: "args_pg0 a \<le> int (length (args_patch_nums a)) - 1" and le: "g \<le> g'"
  shows "prog_si_of a n g \<le> prog_si_of a n g'"
proof (cases "args_pg a = 0")
  case True
  then show ?thesis by (simp add: prog_si_of_def)
next
  case pg: False
  note rg = prog_si_of_range [OF pg top]
  define wp_it where "wp_it = args_wp a * real n"
  define lim where "lim = real (args_ep a * n) * args_pg a"
  consider (warm) "real g \<le> wp_it" | (full) "wp_it < real g" "lim \<le> real g"
    | (mid) "wp_it < real g" "real g < lim" by linarith
  then show ?thesis
  proof cases
    case warm
    then have "prog_si_of a n g = args_pg0 a"
      using pg by (simp add: prog_si_of_def wp_it_def)
    then show ?thesis using rg [of n g'] by simp
  next
    case full
    then have "wp_it < real g'" "lim \<le> real g'" using le by simp_all
    then have "prog_si_of a n g' = int (length (args_patch_nums a)) - 1"
      using pg by (simp add: prog_si_of_def wp_it_def lim_def Let_def)
    then show ?thesis using rg [of n g] by simp
  next
    case mid
    show ?thesis
    proof (cases "lim \<le> real g'")
      case True
      moreover have "wp_it < real g'" using mid le by simp
      ultimately have "prog_si_of a n g' = int (length (args_patch_nums a)) - 1"
        using pg by (simp add: prog_si_of_def wp_it_def lim_def Let_def)
      then show ?thesis using rg [of n g] by simp
    next
      case False
      then have mid': "wp_it < real g'" "real g' < lim" using mid le by simp_all
      define d where "d = int (length (args_patch_nums a)) - 1 - args_pg0 a"
      define q where "q t = min (max ((real t - wp_it) / (lim - wp_it)) 0) 1" for t :: nat
      have dpos: "0 < lim - wp_it" using mid by simp
      have "(real g - wp_it) / (lim - wp_it) \<le> (real g' - wp_it) / (lim - wp_it)"
        using le dpos by (simp add: divide_right_mono)
      then have "q g \<le> q g'" by (simp add: q_def)
      moreover have "0 \<le> (of_int d :: real)" using top by (simp add: d_def)
      ultimately have "q g * of_int d \<le> q g' * of_int d" by (rule mult_right_mono)
      then have "py_round (q g * of_int d) \<le> py_round (q g' * of_int d)" by (rule py_round_mono)
      moreover have "prog_si_of a n g = args_pg0 a + py_round (q g * of_int d)"
        using pg mid by (simp add: prog_si_of_def wp_it_def lim_def Let_def q_def d_def)
      moreover have "prog_si_of a n g' = args_pg0 a + py_round (q g' * of_int d)"
        using pg mid' by (simp add: prog_si_of_def wp_it_def lim_def Let_def q_def d_def)
      ultimately show ?thesis by simp
    qed
  qed
qed

text \<open>
  Claim C10, as amended. The stage handed to \<^verbatim>\<open>train_step\<close> is \<open>-1\<close> when
  \<^verbatim>\<open>args.pg\<close> is zero. When it is positive the stage is \<^verbatim>\<open>args.pg0\<close> up to the end of
  the warm-up, the last stage once the global step is past the warm-up and has reached
  \<^verbatim>\<open>max_it * args.pg\<close>, and the rounded interpolation in between. Provided
  \<^verbatim>\<open>args.pg0\<close> is not beyond the last stage, the stage lies in
  \<open>{-1} \<union> [pg0, len(patch_nums) - 1]\<close> and never decreases as the global step grows.
\<close>

theorem prog_si_schedule:
  assumes "Train_step it g s p \<in> set (fst (main_training c a x))"
  shows "(args_pg a = 0 \<longrightarrow> p = - 1)
    \<and> (0 < args_pg a \<and> real g \<le> args_wp a * real (iters_train x) \<longrightarrow> p = args_pg0 a)
    \<and> (0 < args_pg a \<and> args_wp a * real (iters_train x) < real g
         \<and> real (args_ep a * iters_train x) * args_pg a \<le> real g
        \<longrightarrow> p = int (length (args_patch_nums a)) - 1)
    \<and> (0 < args_pg a \<and> args_wp a * real (iters_train x) < real g
         \<and> real g < real (args_ep a * iters_train x) * args_pg a
        \<longrightarrow> p = args_pg0 a + py_round
              (min (max ((real g - args_wp a * real (iters_train x))
                      / (real (args_ep a * iters_train x) * args_pg a
                           - args_wp a * real (iters_train x))) 0) 1
               * of_int (int (length (args_patch_nums a)) - 1 - args_pg0 a)))
    \<and> (args_pg0 a \<le> int (length (args_patch_nums a)) - 1
        \<longrightarrow> p \<in> {- 1} \<union> {args_pg0 a..int (length (args_patch_nums a)) - 1}
          \<and> (\<forall>it' g' s' p'. Train_step it' g' s' p' \<in> set (fst (main_training c a x)) \<and> g \<le> g'
                \<longrightarrow> p \<le> p'))"
proof -
  have p: "p = prog_si_of a (iters_train x) g"
    using main_training_Train_step [OF assms] by blast
  have zero: "args_pg a = 0 \<longrightarrow> p = - 1"
    by (simp add: p prog_si_of_def)
  have warm: "0 < args_pg a \<and> real g \<le> args_wp a * real (iters_train x) \<longrightarrow> p = args_pg0 a"
    by (simp add: p prog_si_of_def)
  have full: "0 < args_pg a \<and> args_wp a * real (iters_train x) < real g
         \<and> real (args_ep a * iters_train x) * args_pg a \<le> real g
        \<longrightarrow> p = int (length (args_patch_nums a)) - 1"
    by (simp add: p prog_si_of_def Let_def)
  have mid: "0 < args_pg a \<and> args_wp a * real (iters_train x) < real g
         \<and> real g < real (args_ep a * iters_train x) * args_pg a
        \<longrightarrow> p = args_pg0 a + py_round
              (min (max ((real g - args_wp a * real (iters_train x))
                      / (real (args_ep a * iters_train x) * args_pg a
                           - args_wp a * real (iters_train x))) 0) 1
               * of_int (int (length (args_patch_nums a)) - 1 - args_pg0 a))"
    by (simp add: p prog_si_of_def Let_def)
  have rest: "args_pg0 a \<le> int (length (args_patch_nums a)) - 1
        \<longrightarrow> p \<in> {- 1} \<union> {args_pg0 a..int (length (args_patch_nums a)) - 1}
          \<and> (\<forall>it' g' s' p'. Train_step it' g' s' p' \<in> set (fst (main_training c a x)) \<and> g \<le> g'
                \<longrightarrow> p \<le> p')"
  proof (intro impI conjI allI)
    assume top: "args_pg0 a \<le> int (length (args_patch_nums a)) - 1"
    show "p \<in> {- 1} \<union> {args_pg0 a..int (length (args_patch_nums a)) - 1}"
    proof (cases "args_pg a = 0")
      case True
      then show ?thesis using zero by simp
    next
      case False
      then show ?thesis using prog_si_of_range [OF False top, of "iters_train x" g] p by simp
    qed
  next
    fix it' g' s' p'
    assume top: "args_pg0 a \<le> int (length (args_patch_nums a)) - 1"
      and ev: "Train_step it' g' s' p' \<in> set (fst (main_training c a x)) \<and> g \<le> g'"
    then have "p' = prog_si_of a (iters_train x) g'"
      using main_training_Train_step [of it' g' s' p' c a x] by blast
    then show "p \<le> p'" using prog_si_of_mono [OF top, of g g' "iters_train x"] ev p by simp
  qed
  show ?thesis using zero warm full mid rest by blast
qed

theorem prog_si_schedule_witness:
  "Train_step 0 0 True 0 \<in> set (fst (main_training collab_ex args_prog built_ten))
   \<and> Train_step 2 2 True 1 \<in> set (fst (main_training collab_ex args_prog built_ten))
   \<and> Train_step 7 7 True 2 \<in> set (fst (main_training collab_ex args_prog built_ten))
   \<and> 0 < args_pg args_prog
   \<and> real 0 \<le> args_wp args_prog * real (iters_train built_ten)
   \<and> args_wp args_prog * real (iters_train built_ten) < real 2
   \<and> real 2 < real (args_ep args_prog * iters_train built_ten) * args_pg args_prog
   \<and> real (args_ep args_prog * iters_train built_ten) * args_pg args_prog \<le> real 7
   \<and> args_pg0 args_prog \<le> int (length (args_patch_nums args_prog)) - 1
   \<and> (0::int) = args_pg0 args_prog
   \<and> (1::int) = args_pg0 args_prog + py_round
              (min (max ((real 2 - args_wp args_prog * real (iters_train built_ten))
                      / (real (args_ep args_prog * iters_train built_ten) * args_pg args_prog
                           - args_wp args_prog * real (iters_train built_ten))) 0) 1
               * of_int (int (length (args_patch_nums args_prog)) - 1 - args_pg0 args_prog))
   \<and> (2::int) = int (length (args_patch_nums args_prog)) - 1
   \<and> (1::int) \<in> {- 1} \<union> {args_pg0 args_prog..int (length (args_patch_nums args_prog)) - 1}
   \<and> (1::int) \<le> 2"
proof -
  have w: "Train_step 0 0 True 0 \<in> set (fst (main_training collab_ex args_prog built_ten))"
    by code_simp
  have m: "Train_step 2 2 True 1 \<in> set (fst (main_training collab_ex args_prog built_ten))"
    by code_simp
  have f: "Train_step 7 7 True 2 \<in> set (fst (main_training collab_ex args_prog built_ten))"
    by code_simp
  have h: "0 < args_pg args_prog"
    "real 0 \<le> args_wp args_prog * real (iters_train built_ten)"
    "args_wp args_prog * real (iters_train built_ten) < real 2"
    "real 2 < real (args_ep args_prog * iters_train built_ten) * args_pg args_prog"
    "real (args_ep args_prog * iters_train built_ten) * args_pg args_prog \<le> real 7"
    "args_pg0 args_prog \<le> int (length (args_patch_nums args_prog)) - 1"
    by (simp_all add: args_prog_def built_ten_def)
  have h': "args_wp args_prog * real (iters_train built_ten) < real 7"
    by (simp add: args_prog_def built_ten_def)
  have a0: "(0::int) = args_pg0 args_prog"
    using prog_si_schedule [OF w] h by blast
  have a1: "(1::int) = args_pg0 args_prog + py_round
              (min (max ((real 2 - args_wp args_prog * real (iters_train built_ten))
                      / (real (args_ep args_prog * iters_train built_ten) * args_pg args_prog
                           - args_wp args_prog * real (iters_train built_ten))) 0) 1
               * of_int (int (length (args_patch_nums args_prog)) - 1 - args_pg0 args_prog))"
    using prog_si_schedule [OF m] h by blast
  have a2: "(2::int) = int (length (args_patch_nums args_prog)) - 1"
    using prog_si_schedule [OF f] h h' by blast
  have b: "(1::int) \<in> {- 1} \<union> {args_pg0 args_prog..int (length (args_patch_nums args_prog)) - 1}"
    using prog_si_schedule [OF m] h by blast
  have "\<forall>it' g' s' p'. Train_step it' g' s' p'
          \<in> set (fst (main_training collab_ex args_prog built_ten)) \<and> 2 \<le> g' \<longrightarrow> 1 \<le> p'"
    using prog_si_schedule [OF m] h by blast
  then have "(2::nat) \<le> 7 \<longrightarrow> (1::int) \<le> 2"
    using f by blast
  then have c: "(1::int) \<le> 2" by simp
  show ?thesis using w m f h a0 a1 a2 b c by blast
qed

text \<open>
  Claim C10 as stated fails twice. With a warm-up that outlasts the curriculum, a global
  step that has reached \<^verbatim>\<open>max_it * args.pg\<close> but not left the warm-up still gets
  \<^verbatim>\<open>args.pg0\<close>, since the first branch of line 192 wins. With \<^verbatim>\<open>args.pg0\<close>
  beyond the last stage, the stage is outside the interval and decreases.
\<close>

theorem prog_si_counterexample:
  "Train_step 7 7 True 0 \<in> set (fst (main_training collab_ex args_warm built_ten))
   \<and> 0 < args_pg args_warm
   \<and> real (args_ep args_warm * iters_train built_ten) * args_pg args_warm \<le> real 7
   \<and> (0::int) \<noteq> int (length (args_patch_nums args_warm)) - 1
   \<and> Train_step 0 0 True 5 \<in> set (fst (main_training collab_ex args_high built_ten))
   \<and> Train_step 5 5 True 3 \<in> set (fst (main_training collab_ex args_high built_ten))
   \<and> 0 < args_pg args_high
   \<and> (5::int) \<notin> {- 1} \<union> {args_pg0 args_high..int (length (args_patch_nums args_high)) - 1}
   \<and> \<not> (5::int) \<le> 3"
proof -
  have "Train_step 7 7 True 0 \<in> set (fst (main_training collab_ex args_warm built_ten))"
    by code_simp
  moreover have "Train_step 0 0 True 5 \<in> set (fst (main_training collab_ex args_high built_ten))"
    by code_simp
  moreover have "Train_step 5 5 True 3 \<in> set (fst (main_training collab_ex args_high built_ten))"
    by code_simp
  ultimately show ?thesis
    by (simp add: args_warm_def args_high_def built_ten_def)
qed

subsection \<open>The best-so-far variables\<close>

lemma train_one_ep_Inr: "snd (train_one_ep c ep f s a tb n) = Inr st \<Longrightarrow> st = meters c ep"
  by (auto simp: train_one_ep_def split: prod.splits option.splits)

lemma epoch_loop_Inr:
  "snd (epoch_loop c a x eps b) = Inr b' \<Longrightarrow> b' = best_after c a eps b"
proof (induction eps arbitrary: b)
  case Nil
  then show ?case by simp
next
  case (Cons ep eps)
  let ?t = "train_one_ep c ep (ep = start_ep x) (first_it x ep) a (tb_lg x) (iters_train x)"
  obtain evs r where t: "?t = (evs, r)" by (cases ?t)
  have tb: "tb_lg x" using Cons.prems by (auto simp: Let_def split: if_splits)
  obtain st where r: "r = Inr st"
    using Cons.prems tb t by (cases r) (auto simp: Let_def first_it_def)
  have st: "st = meters c ep"
    using t r train_one_ep_Inr [of c ep "ep = start_ep x" "first_it x ep" a "tb_lg x" "iters_train x" st]
    by simp
  have "snd (epoch_loop c a x eps (epoch_best c a ep b)) = Inr b'"
    using Cons.prems tb t r st
    by (simp add: Let_def first_it_def epoch_best_def split_beta snd_validate_and_save
        split: if_splits)
  then show ?case using Cons.IH by simp
qed

lemma best_after_append:
  "best_after c a (xs @ ys) b = best_after c a ys (best_after c a xs b)"
  by (induction xs arbitrary: b) simp_all

lemma fold_min_Min: "fold min xs (m::real) = Min (insert m (set xs))"
  using Min.set_eq_fold [of m xs] by simp

lemma fold_max_Max: "fold max xs (m::real) = Max (insert m (set xs))"
  using Max.set_eq_fold [of m xs] by simp

lemma train_fields_after:
  "best_L_mean (best_after c a eps b) = fold min (map (\<lambda>e. Lm (meters c e)) eps) (best_L_mean b)"
  "best_acc_mean (best_after c a eps b) = fold max (map (\<lambda>e. Accm (meters c e)) eps) (best_acc_mean b)"
  "best_L_tail (best_after c a eps b) =
     fold min (map (\<lambda>e. Lt (meters c e)) (filter (\<lambda>e. Lt (meters c e) \<noteq> - 1) eps)) (best_L_tail b)"
  "best_acc_tail (best_after c a eps b) =
     fold max (map (\<lambda>e. Acct (meters c e)) (filter (\<lambda>e. Lt (meters c e) \<noteq> - 1) eps)) (best_acc_tail b)"
  by (induction eps arbitrary: b)
     (simp_all add: epoch_best_def update_train_def update_val_def Let_def min.commute max.commute)

lemma val_fields_after:
  "best_val_loss_mean (best_after c a eps b) =
     fold min (map (\<lambda>e. val_loss_mean (evaluate c e)) (filter (is_val_and_also_saving a) eps))
       (best_val_loss_mean b)"
  "best_val_loss_tail (best_after c a eps b) =
     fold min (map (\<lambda>e. val_loss_tail (evaluate c e)) (filter (is_val_and_also_saving a) eps))
       (best_val_loss_tail b)"
  "best_val_acc_mean (best_after c a eps b) =
     fold max (map (\<lambda>e. val_acc_mean (evaluate c e)) (filter (is_val_and_also_saving a) eps))
       (best_val_acc_mean b)"
  "best_val_acc_tail (best_after c a eps b) =
     fold max (map (\<lambda>e. val_acc_tail (evaluate c e)) (filter (is_val_and_also_saving a) eps))
       (best_val_acc_tail b)"
  by (induction eps arbitrary: b)
     (simp_all add: epoch_best_def update_train_def update_val_def Let_def min.commute max.commute)

lemma epoch_best_le:
  "best_L_mean (epoch_best c a ep b) \<le> best_L_mean b"
  "best_L_tail (epoch_best c a ep b) \<le> best_L_tail b"
  "best_val_loss_mean (epoch_best c a ep b) \<le> best_val_loss_mean b"
  "best_val_loss_tail (epoch_best c a ep b) \<le> best_val_loss_tail b"
  "best_acc_mean b \<le> best_acc_mean (epoch_best c a ep b)"
  "best_acc_tail b \<le> best_acc_tail (epoch_best c a ep b)"
  "best_val_acc_mean b \<le> best_val_acc_mean (epoch_best c a ep b)"
  "best_val_acc_tail b \<le> best_val_acc_tail (epoch_best c a ep b)"
  by (simp_all add: epoch_best_def update_train_def update_val_def Let_def)


lemma epoch_loop_append_snd:
  "snd (epoch_loop c a x xs b) = Inr b1 \<Longrightarrow>
   snd (epoch_loop c a x (xs @ ys) b) = snd (epoch_loop c a x ys b1)"
proof (induction xs arbitrary: b)
  case Nil
  then show ?case by simp
next
  case (Cons ep eps)
  let ?t = "train_one_ep c ep (ep = start_ep x) (first_it x ep) a (tb_lg x) (iters_train x)"
  obtain evs r where t: "?t = (evs, r)" by (cases ?t)
  have tb: "tb_lg x" using Cons.prems by (auto simp: Let_def split: if_splits)
  obtain st where r: "r = Inr st"
    using Cons.prems tb t by (cases r) (auto simp: Let_def first_it_def)
  define b2 where "b2 = (if is_val_and_also_saving a ep
      then snd (validate_and_save c x ep (update_train b st)) else update_train b st)"
  have "snd (epoch_loop c a x eps b2) = Inr b1"
    using Cons.prems tb t r
    by (simp add: Let_def first_it_def b2_def split_beta split: if_splits)
  from Cons.IH [OF this]
  show ?case
    using tb t r
    by (simp add: Let_def first_it_def b2_def split_beta split: if_splits)
qed

text \<open>
  Claim C8. Let the loop have run the epochs \<open>start_ep, ..., k - 1\<close> without raising, and
  let \<open>b\<close> hold the best-so-far variables at that point. Then each loss variable is the
  minimum, and each accuracy variable the maximum, of its initial value (999 or -1) and
  the values seen so far: the epoch meters for the training variables, the validation
  results of the validating epochs for the validation variables (and, for the two
  training tail variables, the epochs whose tail loss is not -1, line 286). One more epoch
  can only lower the loss variables and raise the accuracy variables, and the whole run
  continues from \<open>b\<close>.
\<close>

theorem best_trackers_running_extrema:
  assumes "snd (epoch_loop c a x [start_ep x..<k] best_init) = Inr b"
  shows "best_L_mean b = Min (insert 999 ((\<lambda>e. Lm (meters c e)) ` {start_ep x..<k}))
    \<and> best_acc_mean b = Max (insert (- 1) ((\<lambda>e. Accm (meters c e)) ` {start_ep x..<k}))
    \<and> best_val_loss_mean b = Min (insert 999 ((\<lambda>e. val_loss_mean (evaluate c e))
          ` {e \<in> {start_ep x..<k}. is_val_and_also_saving a e}))
    \<and> best_val_loss_tail b = Min (insert 999 ((\<lambda>e. val_loss_tail (evaluate c e))
          ` {e \<in> {start_ep x..<k}. is_val_and_also_saving a e}))
    \<and> best_val_acc_mean b = Max (insert (- 1) ((\<lambda>e. val_acc_mean (evaluate c e))
          ` {e \<in> {start_ep x..<k}. is_val_and_also_saving a e}))
    \<and> best_val_acc_tail b = Max (insert (- 1) ((\<lambda>e. val_acc_tail (evaluate c e))
          ` {e \<in> {start_ep x..<k}. is_val_and_also_saving a e}))
    \<and> best_L_tail b = Min (insert 999 ((\<lambda>e. Lt (meters c e))
          ` {e \<in> {start_ep x..<k}. Lt (meters c e) \<noteq> - 1}))
    \<and> best_acc_tail b = Max (insert (- 1) ((\<lambda>e. Acct (meters c e))
          ` {e \<in> {start_ep x..<k}. Lt (meters c e) \<noteq> - 1}))
    \<and> (\<forall>b'. snd (epoch_loop c a x [start_ep x..<Suc k] best_init) = Inr b' \<longrightarrow>
          best_L_mean b' \<le> best_L_mean b \<and> best_L_tail b' \<le> best_L_tail b
          \<and> best_val_loss_mean b' \<le> best_val_loss_mean b
          \<and> best_val_loss_tail b' \<le> best_val_loss_tail b
          \<and> best_acc_mean b \<le> best_acc_mean b' \<and> best_acc_tail b \<le> best_acc_tail b'
          \<and> best_val_acc_mean b \<le> best_val_acc_mean b'
          \<and> best_val_acc_tail b \<le> best_val_acc_tail b')
    \<and> (start_ep x \<le> k \<and> k \<le> args_ep a \<longrightarrow>
          snd (epoch_loop c a x [start_ep x..<args_ep a] best_init)
            = snd (epoch_loop c a x [k..<args_ep a] b))"
proof -
  have b: "b = best_after c a [start_ep x..<k] best_init"
    using epoch_loop_Inr [OF assms] .
  have tr: "best_L_mean b = Min (insert 999 ((\<lambda>e. Lm (meters c e)) ` {start_ep x..<k}))"
    "best_acc_mean b = Max (insert (- 1) ((\<lambda>e. Accm (meters c e)) ` {start_ep x..<k}))"
    "best_L_tail b = Min (insert 999 ((\<lambda>e. Lt (meters c e))
          ` {e \<in> {start_ep x..<k}. Lt (meters c e) \<noteq> - 1}))"
    "best_acc_tail b = Max (insert (- 1) ((\<lambda>e. Acct (meters c e))
          ` {e \<in> {start_ep x..<k}. Lt (meters c e) \<noteq> - 1}))"
    unfolding b train_fields_after fold_min_Min fold_max_Max
    by (simp_all add: best_init_def)
  have va: "best_val_loss_mean b = Min (insert 999 ((\<lambda>e. val_loss_mean (evaluate c e))
          ` {e \<in> {start_ep x..<k}. is_val_and_also_saving a e}))"
    "best_val_loss_tail b = Min (insert 999 ((\<lambda>e. val_loss_tail (evaluate c e))
          ` {e \<in> {start_ep x..<k}. is_val_and_also_saving a e}))"
    "best_val_acc_mean b = Max (insert (- 1) ((\<lambda>e. val_acc_mean (evaluate c e))
          ` {e \<in> {start_ep x..<k}. is_val_and_also_saving a e}))"
    "best_val_acc_tail b = Max (insert (- 1) ((\<lambda>e. val_acc_tail (evaluate c e))
          ` {e \<in> {start_ep x..<k}. is_val_and_also_saving a e}))"
    unfolding b val_fields_after fold_min_Min fold_max_Max
    by (simp_all add: best_init_def)
  have mono: "\<forall>b'. snd (epoch_loop c a x [start_ep x..<Suc k] best_init) = Inr b' \<longrightarrow>
          best_L_mean b' \<le> best_L_mean b \<and> best_L_tail b' \<le> best_L_tail b
          \<and> best_val_loss_mean b' \<le> best_val_loss_mean b
          \<and> best_val_loss_tail b' \<le> best_val_loss_tail b
          \<and> best_acc_mean b \<le> best_acc_mean b' \<and> best_acc_tail b \<le> best_acc_tail b'
          \<and> best_val_acc_mean b \<le> best_val_acc_mean b'
          \<and> best_val_acc_tail b \<le> best_val_acc_tail b'"
  proof (intro allI impI)
    fix b'
    assume "snd (epoch_loop c a x [start_ep x..<Suc k] best_init) = Inr b'"
    then have b': "b' = best_after c a [start_ep x..<Suc k] best_init"
      by (rule epoch_loop_Inr)
    show "best_L_mean b' \<le> best_L_mean b \<and> best_L_tail b' \<le> best_L_tail b
          \<and> best_val_loss_mean b' \<le> best_val_loss_mean b
          \<and> best_val_loss_tail b' \<le> best_val_loss_tail b
          \<and> best_acc_mean b \<le> best_acc_mean b' \<and> best_acc_tail b \<le> best_acc_tail b'
          \<and> best_val_acc_mean b \<le> best_val_acc_mean b'
          \<and> best_val_acc_tail b \<le> best_val_acc_tail b'"
    proof (cases "start_ep x \<le> k")
      case True
      then have "b' = epoch_best c a k b"
        by (simp add: b b' best_after_append)
      then show ?thesis by (simp add: epoch_best_le)
    next
      case False
      then have "b' = b" by (simp add: b b')
      then show ?thesis by simp
    qed
  qed
  have through: "start_ep x \<le> k \<and> k \<le> args_ep a \<longrightarrow>
          snd (epoch_loop c a x [start_ep x..<args_ep a] best_init)
            = snd (epoch_loop c a x [k..<args_ep a] b)"
  proof
    assume k: "start_ep x \<le> k \<and> k \<le> args_ep a"
    then have "[start_ep x..<args_ep a] = [start_ep x..<k] @ [k..<args_ep a]"
      by (metis le_Suc_ex upt_add_eq_append)
    then show "snd (epoch_loop c a x [start_ep x..<args_ep a] best_init)
            = snd (epoch_loop c a x [k..<args_ep a] b)"
      using epoch_loop_append_snd [OF assms, of "[k..<args_ep a]"] by simp
  qed
  show ?thesis using tr va mono through by blast
qed

theorem best_trackers_running_extrema_witness:
  "snd (epoch_loop collab_val args_ex built_ex [start_ep built_ex..<1] best_init) =
     Inr \<lparr>best_L_mean = 4, best_L_tail = 5, best_acc_mean = 0, best_acc_tail = 0,
          best_val_loss_mean = 999, best_val_loss_tail = 999,
          best_val_acc_mean = - 1, best_val_acc_tail = - 1\<rparr>
   \<and> snd (epoch_loop collab_val args_ex built_ex [start_ep built_ex..<Suc 1] best_init) =
     Inr \<lparr>best_L_mean = 79 / 20, best_L_tail = 99 / 20, best_acc_mean = 1,
          best_acc_tail = 1 / 2, best_val_loss_mean = 3, best_val_loss_tail = 6 / 5,
          best_val_acc_mean = 50, best_val_acc_tail = 40\<rparr>
   \<and> start_ep built_ex \<le> 1 \<and> 1 \<le> args_ep args_ex
   \<and> (4 :: real) = Min (insert 999 ((\<lambda>e. Lm (meters collab_val e)) ` {start_ep built_ex..<1}))
   \<and> (999 :: real) = Min (insert 999 ((\<lambda>e. val_loss_tail (evaluate collab_val e))
          ` {e \<in> {start_ep built_ex..<1}. is_val_and_also_saving args_ex e}))
   \<and> (0 :: real) = Max (insert (- 1) ((\<lambda>e. Accm (meters collab_val e)) ` {start_ep built_ex..<1}))
   \<and> (79 / 20 :: real) \<le> 4 \<and> (6 / 5 :: real) \<le> 999 \<and> (- 1 :: real) \<le> 50
   \<and> snd (epoch_loop collab_val args_ex built_ex [start_ep built_ex..<args_ep args_ex] best_init)
        = snd (epoch_loop collab_val args_ex built_ex [1..<args_ep args_ex]
            \<lparr>best_L_mean = 4, best_L_tail = 5, best_acc_mean = 0, best_acc_tail = 0,
             best_val_loss_mean = 999, best_val_loss_tail = 999,
             best_val_acc_mean = - 1, best_val_acc_tail = - 1\<rparr>)"
proof -
  let ?b = "\<lparr>best_L_mean = 4, best_L_tail = 5, best_acc_mean = 0, best_acc_tail = 0,
          best_val_loss_mean = 999, best_val_loss_tail = 999,
          best_val_acc_mean = - 1, best_val_acc_tail = - 1\<rparr>"
  let ?b' = "\<lparr>best_L_mean = 79 / 20, best_L_tail = 99 / 20, best_acc_mean = 1,
          best_acc_tail = 1 / 2, best_val_loss_mean = 3, best_val_loss_tail = 6 / 5,
          best_val_acc_mean = 50, best_val_acc_tail = 40\<rparr>"
  have h: "snd (epoch_loop collab_val args_ex built_ex [start_ep built_ex..<1] best_init) = Inr ?b"
    by code_simp
  have h': "snd (epoch_loop collab_val args_ex built_ex [start_ep built_ex..<Suc 1] best_init) = Inr ?b'"
    by code_simp
  have k: "start_ep built_ex \<le> 1 \<and> 1 \<le> args_ep args_ex"
    by (simp add: built_ex_def args_ex_def)
  note t = best_trackers_running_extrema [OF h]
  have ext: "(4 :: real) = Min (insert 999 ((\<lambda>e. Lm (meters collab_val e)) ` {start_ep built_ex..<1}))"
    "(999 :: real) = Min (insert 999 ((\<lambda>e. val_loss_tail (evaluate collab_val e))
          ` {e \<in> {start_ep built_ex..<1}. is_val_and_also_saving args_ex e}))"
    "(0 :: real) = Max (insert (- 1) ((\<lambda>e. Accm (meters collab_val e)) ` {start_ep built_ex..<1}))"
    using t by simp_all
  have "best_L_mean ?b' \<le> best_L_mean ?b \<and> best_val_loss_tail ?b' \<le> best_val_loss_tail ?b
      \<and> best_val_acc_mean ?b \<le> best_val_acc_mean ?b'"
    using t h' by blast
  then have mono: "(79 / 20 :: real) \<le> 4" "(6 / 5 :: real) \<le> 999" "(- 1 :: real) \<le> 50"
    by simp_all
  have through: "snd (epoch_loop collab_val args_ex built_ex [start_ep built_ex..<args_ep args_ex] best_init)
        = snd (epoch_loop collab_val args_ex built_ex [1..<args_ep args_ex] ?b)"
    using t k by blast
  show ?thesis using h h' k ext mono through by blast
qed

subsection \<open>Projections of a run in which nothing raises\<close>

lemma run_events_append:
  "run_events c a x (xs @ ys) b = run_events c a x xs b @ run_events c a x ys (best_after c a xs b)"
  by (induction xs arbitrary: b) simp_all

lemma run_events_upt_Suc:
  "s \<le> k \<Longrightarrow> run_events c a x [s..<Suc k] b =
     run_events c a x [s..<k] b @ epoch_events c a x k (best_after c a [s..<k] b)"
  by (simp add: run_events_append)

lemma filter_iter_events:
  "(\<And>it. \<forall>e\<in>set (iter_events a n ep it). \<not> P e) \<Longrightarrow>
   filter P (concat (map (iter_events a n ep) its)) = []"
  by (induction its) auto

lemma concat_map_filter_upt_Suc:
  "s \<le> k \<Longrightarrow> concat (map f (filter P [s..<Suc k])) =
     concat (map f (filter P [s..<k])) @ (if P k then f k else [])"
  by simp

subsection \<open>Checkpoint writes\<close>

lemma best_val_loss_tail_update_train:
  "best_val_loss_tail (update_train b m) = best_val_loss_tail b"
  by (simp add: update_train_def Let_def)

lemma best_val_loss_tail_before:
  "best_val_loss_tail (best_after c a [s..<k] best_init) =
     Min (insert 999 ((\<lambda>e. val_loss_tail (evaluate c e)) ` {e \<in> {s..<k}. is_val_and_also_saving a e}))"
  unfolding val_fields_after fold_min_Min by (simp add: best_init_def)

lemma ckpt_writes_epoch:
  "filter is_ckpt_write (epoch_events c a x ep b) =
     (if is_val_and_also_saving a ep \<and> is_local_master x
      then Torch_save (ckpt_of c ep)
             # (if val_loss_tail (evaluate c ep) < best_val_loss_tail b
                then [Copy_last_to_best] else [])
      else [])"
  by (simp add: epoch_events_def validate_and_save_def ckpt_of_def best_updated_def Let_def
      filter_iter_events iter_events_def best_val_loss_tail_update_train)

lemma ckpt_writes_run:
  "filter is_ckpt_write (run_events c a x [s..<k] best_init) =
     (if is_local_master x then
        concat (map (\<lambda>ep. Torch_save (ckpt_of c ep)
          # (if val_loss_tail (evaluate c ep)
                < Min (insert 999 ((\<lambda>e. val_loss_tail (evaluate c e))
                        ` {e \<in> {s..<ep}. is_val_and_also_saving a e}))
             then [Copy_last_to_best] else []))
        (filter (is_val_and_also_saving a) [s..<k]))
      else [])"
proof (induction k)
  case 0
  show ?case by simp
next
  case (Suc k)
  show ?case
  proof (cases "s \<le> k")
    case True
    show ?thesis
      unfolding run_events_upt_Suc [OF True] concat_map_filter_upt_Suc [OF True]
      using Suc
      by (simp add: ckpt_writes_epoch best_val_loss_tail_before)
  next
    case False
    then show ?thesis by simp
  qed
qed

text \<open>
  Claim C1, as amended. In a run that does not raise, the local leader writes the last
  checkpoint at every validating epoch and copies it to the best checkpoint exactly when
  that epoch's validation tail-loss is strictly below the best so far, which is the
  minimum of the initial 999 and the validation tail-losses of the earlier validating
  epochs of the run; a process that is not the local leader writes neither file.
\<close>

theorem best_checkpoint_policy:
  assumes "tb_lg x" and "args_ac a \<noteq> 0"
  shows "filter is_ckpt_write (fst (main_training c a x)) =
     (if is_local_master x then
        concat (map (\<lambda>ep. Torch_save (ckpt_of c ep)
          # (if val_loss_tail (evaluate c ep)
                < Min (insert 999 ((\<lambda>e. val_loss_tail (evaluate c e))
                        ` {e \<in> {start_ep x..<ep}. is_val_and_also_saving a e}))
             then [Copy_last_to_best] else []))
        (filter (is_val_and_also_saving a) [start_ep x..<args_ep a]))
      else [])"
  unfolding main_training_ok [OF assms] fst_conv filter_append ckpt_writes_run
  by simp

theorem best_checkpoint_policy_witness:
  "tb_lg built_one \<and> args_ac args_forty \<noteq> 0
   \<and> filter is_ckpt_write (fst (main_training collab_val args_forty built_one)) =
       [Torch_save (ckpt_of collab_val 9), Copy_last_to_best,
        Torch_save (ckpt_of collab_val 19), Copy_last_to_best,
        Torch_save (ckpt_of collab_val 29),
        Torch_save (ckpt_of collab_val 39), Copy_last_to_best]"
proof -
  have h: "tb_lg built_one" "args_ac args_forty \<noteq> 0"
    by (simp_all add: built_one_def args_forty_def)
  have lm: "is_local_master built_one" "start_ep built_one = 0" "args_ep args_forty = 40"
    by (simp_all add: built_one_def args_forty_def)
  have sv: "filter (is_val_and_also_saving args_forty) [0..<40] = [9, 19, 29, 39]"
    by code_simp
  have as_list: "\<And>k. {e \<in> {0..<k}. is_val_and_also_saving args_forty e}
      = set (filter (is_val_and_also_saving args_forty) [0..<k])"
    by auto
  have f9: "filter (is_val_and_also_saving args_forty) [0..<9] = []" by code_simp
  have f19: "filter (is_val_and_also_saving args_forty) [0..<19] = [9]" by code_simp
  have f29: "filter (is_val_and_also_saving args_forty) [0..<29] = [9, 19]" by code_simp
  have f39: "filter (is_val_and_also_saving args_forty) [0..<39] = [9, 19, 29]" by code_simp
  let ?f = "\<lambda>e. val_loss_tail (evaluate collab_val e)"
  let ?S = "\<lambda>k. {e \<in> {0..<k}. is_val_and_also_saving args_forty e}"
  have m9: "Min (insert 999 (?f ` ?S 9)) = 999"
    unfolding as_list f9 by simp
  have m19: "Min (insert 999 (?f ` ?S 19)) = 2"
    unfolding as_list f19 by (simp add: collab_val_def)
  have m29: "Min (insert 999 (?f ` ?S 29)) = 3 / 2"
    unfolding as_list f29 by (simp add: collab_val_def)
  have m39: "Min (insert 999 (?f ` ?S 39)) = 3 / 2"
    unfolding as_list f39 by (simp add: collab_val_def)
  have v: "?f 9 = 2" "?f 19 = 3 / 2" "?f 29 = 9 / 5" "?f 39 = 6 / 5"
    by (simp_all add: collab_val_def)
  have "filter is_ckpt_write (fst (main_training collab_val args_forty built_one)) =
       [Torch_save (ckpt_of collab_val 9), Copy_last_to_best,
        Torch_save (ckpt_of collab_val 19), Copy_last_to_best,
        Torch_save (ckpt_of collab_val 29),
        Torch_save (ckpt_of collab_val 39), Copy_last_to_best]"
    unfolding best_checkpoint_policy [OF h] lm(2,3) sv list.map m9 m19 m29 m39 v
    using lm(1) by simp
  then show ?thesis using h by simp
qed

text \<open>
  Claim C1 as stated fails on its own example. With validation tail-losses 2.0, 1.5, 1.8
  and 1.2 (after epochs 9, 19, 29 and 39 of forty), the best checkpoint is written three
  times: at the epoch yielding 2.0, which improves on the initial 999, and at those
  yielding 1.5 and 1.2; only the epoch yielding 1.8 leaves it alone.
\<close>

theorem best_checkpoint_counterexample:
  "val_loss_tail (evaluate collab_val 9) = 2
   \<and> val_loss_tail (evaluate collab_val 19) = 3 / 2
   \<and> val_loss_tail (evaluate collab_val 29) = 9 / 5
   \<and> val_loss_tail (evaluate collab_val 39) = 6 / 5
   \<and> filter is_ckpt_write (fst (main_training collab_val args_forty built_one)) =
       [Torch_save (ckpt_of collab_val 9), Copy_last_to_best,
        Torch_save (ckpt_of collab_val 19), Copy_last_to_best,
        Torch_save (ckpt_of collab_val 29),
        Torch_save (ckpt_of collab_val 39), Copy_last_to_best]"
proof -
  have tb: "tb_lg built_one" "args_ac args_forty \<noteq> 0" "is_local_master built_one"
    "start_ep built_one = 0" "args_ep args_forty = 40"
    by (simp_all add: built_one_def args_forty_def)
  have sv: "filter (is_val_and_also_saving args_forty) [0..<40] = [9, 19, 29, 39]"
    by code_simp
  have as_list: "\<And>k. {e \<in> {0..<k}. is_val_and_also_saving args_forty e}
      = set (filter (is_val_and_also_saving args_forty) [0..<k])"
    by auto
  have f9: "filter (is_val_and_also_saving args_forty) [0..<9] = []" by code_simp
  have f19: "filter (is_val_and_also_saving args_forty) [0..<19] = [9]" by code_simp
  have f29: "filter (is_val_and_also_saving args_forty) [0..<29] = [9, 19]" by code_simp
  have f39: "filter (is_val_and_also_saving args_forty) [0..<39] = [9, 19, 29]" by code_simp
  let ?f = "\<lambda>e. val_loss_tail (evaluate collab_val e)"
  let ?S = "\<lambda>k. {e \<in> {0..<k}. is_val_and_also_saving args_forty e}"
  have m9: "Min (insert 999 (?f ` ?S 9)) = 999"
    unfolding as_list f9 by simp
  have m19: "Min (insert 999 (?f ` ?S 19)) = 2"
    unfolding as_list f19 by (simp add: collab_val_def)
  have m29: "Min (insert 999 (?f ` ?S 29)) = 3 / 2"
    unfolding as_list f29 by (simp add: collab_val_def)
  have m39: "Min (insert 999 (?f ` ?S 39)) = 3 / 2"
    unfolding as_list f39 by (simp add: collab_val_def)
  have v: "?f 9 = 2" "?f 19 = 3 / 2" "?f 29 = 9 / 5" "?f 39 = 6 / 5"
    by (simp_all add: collab_val_def)
  have "filter is_ckpt_write (fst (main_training collab_val args_forty built_one)) =
       [Torch_save (ckpt_of collab_val 9), Copy_last_to_best,
        Torch_save (ckpt_of collab_val 19), Copy_last_to_best,
        Torch_save (ckpt_of collab_val 29),
        Torch_save (ckpt_of collab_val 39), Copy_last_to_best]"
    unfolding main_training_ok [OF tb(1,2)] fst_conv filter_append tb(4,5)
      ckpt_writes_run sv list.map m9 m19 m29 m39 v
    using tb(3) by simp
  then show ?thesis using v by simp
qed

subsection \<open>The save cadence\<close>





subsection \<open>Order of validation, saving and barrier\<close>

lemma save_order_plain:
  "\<forall>e\<in>set xs. \<not> is_val_event e \<Longrightarrow> save_order lm Idle (xs @ ys) = save_order lm Idle ys"
proof (induction xs)
  case Nil
  show ?case by simp
next
  case (Cons e xs)
  then have "save_step lm Idle e = Some Idle" by (cases e) simp_all
  then show ?case using Cons by simp
qed

lemma save_order_block:
  "save_order (is_local_master x) Idle (fst (validate_and_save c x ep b) @ ys)
     = save_order (is_local_master x) Idle ys"
  by (simp add: validate_and_save_def Let_def)

lemma train_loop_plain: "\<forall>e\<in>set (fst (train_loop a tb ep n its)). \<not> is_val_event e"
  by (induction its) (auto simp: Let_def split: sum.splits prod.splits)

lemma train_one_ep_plain: "\<forall>e\<in>set (fst (train_one_ep c ep f s a tb n)). \<not> is_val_event e"
  using train_loop_plain [of a tb ep n "[s..<n]"] by (simp add: fst_train_one_ep)

lemma epoch_loop_save_order:
  "save_order (is_local_master x) Idle (fst (epoch_loop c a x eps b) @ ys)
     = save_order (is_local_master x) Idle ys"
proof (induction eps arbitrary: b)
  case Nil
  show ?case by simp
next
  case (Cons ep eps)
  let ?lm = "is_local_master x"
  let ?t = "train_one_ep c ep (ep = start_ep x) (first_it x ep) a (tb_lg x) (iters_train x)"
  let ?pre = "(if has_set_epoch x then [Sampler_set_epoch ep] else []) :: ('a, 'b) event list"
  obtain evs r where t: "?t = (evs, r)" by (cases ?t)
  have evs: "\<forall>e\<in>set evs. \<not> is_val_event e"
    using train_one_ep_plain [of c ep "ep = start_ep x" "first_it x ep" a "tb_lg x" "iters_train x"] t
    by simp
  have head: "\<forall>e\<in>set (?pre @ Tb_set_step (ep * iters_train x) # evs). \<not> is_val_event e"
    using evs by auto
  show ?case
  proof (cases "tb_lg x")
    case False
    have "fst (epoch_loop c a x (ep # eps) b) = ?pre" using False by (simp add: Let_def)
    moreover have "\<forall>e\<in>set ?pre. \<not> is_val_event e" by simp
    ultimately show ?thesis using save_order_plain by metis
  next
    case True
    show ?thesis
    proof (cases r)
      case (Inl e)
      have "fst (epoch_loop c a x (ep # eps) b) = ?pre @ Tb_set_step (ep * iters_train x) # evs"
        using True t Inl by (simp add: Let_def first_it_def split: if_splits)
      then show ?thesis using save_order_plain [OF head] by metis
    next
      case (Inr st)
      define b1 where "b1 = update_train b st"
      define b2 where "b2 = (if is_val_and_also_saving a ep
          then snd (validate_and_save c x ep b1) else b1)"
      define vevs where "vevs = (if is_val_and_also_saving a ep
          then fst (validate_and_save c x ep b1) else [])"
      have eq: "fst (epoch_loop c a x (ep # eps) b) =
          (?pre @ Tb_set_step (ep * iters_train x) # evs)
          @ vevs @ [Dump_log, Tb_flush] @ fst (epoch_loop c a x eps b2)"
        using True t Inr
        by (simp add: Let_def first_it_def b1_def b2_def vevs_def split_beta split: if_splits)
      have v: "\<And>zs. save_order ?lm Idle (vevs @ zs) = save_order ?lm Idle zs"
        using save_order_block [of x c ep b1] by (simp add: vevs_def)
      have "fst (epoch_loop c a x (ep # eps) b) @ ys =
          (?pre @ Tb_set_step (ep * iters_train x) # evs)
          @ (vevs @ [Dump_log, Tb_flush] @ fst (epoch_loop c a x eps b2) @ ys)"
        unfolding eq by simp
      then have "save_order ?lm Idle (fst (epoch_loop c a x (ep # eps) b) @ ys)
          = save_order ?lm Idle (vevs @ [Dump_log, Tb_flush] @ fst (epoch_loop c a x eps b2) @ ys)"
        using save_order_plain [OF head] by metis
      also have "\<dots> = save_order ?lm Idle ([Dump_log, Tb_flush] @ fst (epoch_loop c a x eps b2) @ ys)"
        by (rule v)
      also have "\<dots> = save_order ?lm Idle (fst (epoch_loop c a x eps b2) @ ys)"
        by simp
      also have "\<dots> = save_order ?lm Idle ys" by (rule Cons.IH)
      finally show ?thesis .
    qed
  qed
qed


lemma main_training_save_order:
  "save_order (is_local_master x) Idle (fst (main_training c a x))"
proof -
  obtain evs r where e: "epoch_loop c a x [start_ep x..<args_ep a] best_init = (evs, r)"
    by (cases "epoch_loop c a x [start_ep x..<args_ep a] best_init")
  have "\<And>ys. save_order (is_local_master x) Idle (evs @ ys) = save_order (is_local_master x) Idle ys"
    using epoch_loop_save_order [of x c a "[start_ep x..<args_ep a]" best_init] e by simp
  from this [of "[]"] this [of "[Dump_log]"] this [of "[Dump_log, Tb_flush, Tb_close, Barrier]"]
  show ?thesis
    using e by (auto simp: main_training_def split: sum.splits)
qed

lemma evaluates_epoch:
  "filter is_evaluate (epoch_events c a x ep b) =
     (if is_val_and_also_saving a ep then [Evaluate] else [])"
  by (simp add: epoch_events_def validate_and_save_def Let_def
      filter_iter_events iter_events_def)

lemma evaluates_run:
  "filter is_evaluate (run_events c a x eps b) =
     map (\<lambda>ep. Evaluate) (filter (is_val_and_also_saving a) eps)"
  by (induction eps arbitrary: b) (simp_all add: evaluates_epoch)

text \<open>
  Claim C5. On every process and in every run, each call of \<^verbatim>\<open>trainer.evaluate\<close> is
  followed at once by the write of the last checkpoint and possibly its copy to the best
  one when the process is the local leader, by neither when it is not, and then by
  \<^verbatim>\<open>dist.barrier()\<close>, before anything else of the run happens; no checkpoint is written
  or copied anywhere else. In a run that does not raise, validation runs once in each
  validating epoch.
\<close>

theorem validate_save_barrier_order:
  "save_order (is_local_master x) Idle (fst (main_training c a x))
   \<and> (tb_lg x \<and> args_ac a \<noteq> 0 \<longrightarrow>
        filter is_evaluate (fst (main_training c a x))
          = map (\<lambda>ep. Evaluate) (filter (is_val_and_also_saving a) [start_ep x..<args_ep a]))"
proof
  show "save_order (is_local_master x) Idle (fst (main_training c a x))"
    by (rule main_training_save_order)
  show "tb_lg x \<and> args_ac a \<noteq> 0 \<longrightarrow>
        filter is_evaluate (fst (main_training c a x))
          = map (\<lambda>ep. Evaluate) (filter (is_val_and_also_saving a) [start_ep x..<args_ep a])"
  proof
    assume h: "tb_lg x \<and> args_ac a \<noteq> 0"
    then have "main_training c a x =
     (run_events c a x [start_ep x..<args_ep a] best_init @ [Dump_log, Tb_flush, Tb_close, Barrier],
      Inr (best_after c a [start_ep x..<args_ep a] best_init))"
      using main_training_ok by blast
    then show "filter is_evaluate (fst (main_training c a x))
          = map (\<lambda>ep. Evaluate) (filter (is_val_and_also_saving a) [start_ep x..<args_ep a])"
      by (simp add: evaluates_run)
  qed
qed

theorem validate_save_barrier_order_witness:
  "tb_lg built_ex \<and> args_ac args_ex \<noteq> 0
   \<and> save_order (is_local_master built_ex) Idle (fst (main_training collab_val args_ex built_ex))
   \<and> filter is_evaluate (fst (main_training collab_val args_ex built_ex)) = [Evaluate]"
proof -
  have h: "tb_lg built_ex \<and> args_ac args_ex \<noteq> 0"
    by (simp add: built_ex_def args_ex_def)
  have sv: "filter (is_val_and_also_saving args_ex) [start_ep built_ex..<args_ep args_ex] = [1]"
    by code_simp
  show ?thesis
    using validate_save_barrier_order [of built_ex collab_val args_ex] h sv by simp
qed

subsection \<open>The order of epochs and iterations\<close>






subsection \<open>Resuming\<close>










subsection \<open>Leaving the program\<close>

lemma train_loop_raise:
  "train_loop a tb ep n its = (evs, Some e) \<Longrightarrow> evs \<noteq> [] \<and> last evs \<noteq> Tb_flush"
  by (induction its arbitrary: evs)
     (auto simp: Let_def split: sum.splits if_splits prod.splits)

lemma train_one_ep_raise:
  assumes "train_one_ep c ep f s a tb n = (evs, Inl e)"
  shows "evs \<noteq> [] \<and> last evs \<noteq> Tb_flush"
proof -
  have "train_loop a tb ep n [s..<n] = (evs, Some e)"
    using assms by (auto simp: train_one_ep_def get_batches_eq split: prod.splits option.splits)
  then show ?thesis by (rule train_loop_raise)
qed

lemma train_one_ep_no_close: "Tb_close \<notin> set (fst (train_one_ep c ep f s a tb n))"
proof -
  have "\<And>its. Tb_close \<notin> set (fst (train_loop a tb ep n its :: ('a, 'b) event list \<times> py_error option))"
  proof -
    fix its
    show "Tb_close \<notin> set (fst (train_loop a tb ep n its :: ('a, 'b) event list \<times> py_error option))"
      by (induction its) (auto simp: Let_def split: sum.splits if_splits prod.splits)
  qed
  then show ?thesis by (simp add: fst_train_one_ep)
qed

lemma validate_and_save_no_close: "Tb_close \<notin> set (fst (validate_and_save c x ep b))"
  by (simp add: validate_and_save_def Let_def)

lemma epoch_loop_no_close: "Tb_close \<notin> set (fst (epoch_loop c a x eps b))"
proof (induction eps arbitrary: b)
  case Nil
  show ?case by simp
next
  case (Cons ep eps)
  let ?t = "train_one_ep c ep (ep = start_ep x) (first_it x ep) a (tb_lg x) (iters_train x)"
  obtain evs r where t: "?t = (evs, r)" by (cases ?t)
  have evs: "Tb_close \<notin> set evs"
    using train_one_ep_no_close [of c ep "ep = start_ep x" "first_it x ep" a "tb_lg x" "iters_train x"] t
    by simp
  show ?case
    using t evs Cons.IH
    by (cases r) (auto simp: Let_def first_it_def split_beta validate_and_save_no_close
        split: if_splits)
qed

lemma epoch_loop_raise:
  "snd (epoch_loop c a x eps b) = Inl e \<Longrightarrow>
   \<not> (\<exists>pre. fst (epoch_loop c a x eps b) = pre @ [Tb_flush])"
proof (induction eps arbitrary: b)
  case Nil
  then show ?case by simp
next
  case (Cons ep eps)
  let ?t = "train_one_ep c ep (ep = start_ep x) (first_it x ep) a (tb_lg x) (iters_train x)"
  let ?pre = "(if has_set_epoch x then [Sampler_set_epoch ep] else []) :: ('a, 'b) event list"
  obtain evs r where t: "?t = (evs, r)" by (cases ?t)
  show ?case
  proof (cases "tb_lg x")
    case False
    then have "fst (epoch_loop c a x (ep # eps) b) = ?pre" by (simp add: Let_def)
    then show ?thesis by auto
  next
    case True
    show ?thesis
    proof (cases r)
      case (Inl e')
      have eq: "fst (epoch_loop c a x (ep # eps) b) = ?pre @ Tb_set_step (ep * iters_train x) # evs"
        using True t Inl by (simp add: Let_def first_it_def split: if_splits)
      have "evs \<noteq> [] \<and> last evs \<noteq> Tb_flush"
        using t Inl by (intro train_one_ep_raise [of c ep _ _ a _ _ evs e']) simp
      then have "last (?pre @ Tb_set_step (ep * iters_train x) # evs) \<noteq> Tb_flush" by simp
      then show ?thesis unfolding eq by (metis last_snoc)
    next
      case (Inr st)
      define b1 where "b1 = update_train b st"
      define b2 where "b2 = (if is_val_and_also_saving a ep
          then snd (validate_and_save c x ep b1) else b1)"
      define vevs where "vevs = (if is_val_and_also_saving a ep
          then fst (validate_and_save c x ep b1) else [])"
      have eq: "fst (epoch_loop c a x (ep # eps) b) =
          (?pre @ Tb_set_step (ep * iters_train x) # evs
          @ vevs @ [Dump_log, Tb_flush]) @ fst (epoch_loop c a x eps b2)"
        using True t Inr
        by (simp add: Let_def first_it_def b1_def b2_def vevs_def split_beta split: if_splits)
      have sn: "snd (epoch_loop c a x eps b2) = Inl e"
        using Cons.prems True t Inr
        by (simp add: Let_def first_it_def b1_def b2_def split_beta split: if_splits)
      have ih: "\<not> (\<exists>pre. fst (epoch_loop c a x eps b2) = pre @ [Tb_flush])"
        using Cons.IH [OF sn] .
      have ne: "fst (epoch_loop c a x eps b2) \<noteq> []"
      proof
        assume "fst (epoch_loop c a x eps b2) = []"
        then show False using sn True by (cases eps) (auto simp: Let_def split: if_splits prod.splits sum.splits)
      qed
      show ?thesis
      proof
        assume "\<exists>pre. fst (epoch_loop c a x (ep # eps) b) = pre @ [Tb_flush]"
        then obtain pre where "fst (epoch_loop c a x (ep # eps) b) = pre @ [Tb_flush]" by blast
        then have "last (fst (epoch_loop c a x (ep # eps) b)) = Tb_flush" by simp
        then have "last (fst (epoch_loop c a x eps b2)) = Tb_flush"
          unfolding eq using ne by simp
        then have "fst (epoch_loop c a x eps b2) = butlast (fst (epoch_loop c a x eps b2)) @ [Tb_flush]"
          using ne by (metis append_butlast_last_id)
        then show False using ih by blast
      qed
    qed
  qed
qed


lemma main_training_raise:
  assumes "snd (main_training c a x) = Inl e"
  shows "Tb_close \<notin> set (fst (main_training c a x))
    \<and> \<not> (\<exists>pre. fst (main_training c a x) = pre @ [Tb_flush])"
proof -
  obtain evs r where l: "epoch_loop c a x [start_ep x..<args_ep a] best_init = (evs, r)"
    by (cases "epoch_loop c a x [start_ep x..<args_ep a] best_init")
  have nc: "Tb_close \<notin> set evs"
    using epoch_loop_no_close [of c a x "[start_ep x..<args_ep a]" best_init] l by simp
  show ?thesis
  proof (cases r)
    case (Inl e')
    then have "\<not> (\<exists>pre. evs = pre @ [Tb_flush])"
      using epoch_loop_raise [of c a x "[start_ep x..<args_ep a]" best_init e'] l by simp
    then show ?thesis using l Inl nc by (simp add: main_training_def)
  next
    case (Inr b)
    then have "fst (main_training c a x) = evs @ [Dump_log]"
      using assms l by (simp add: main_training_def split: if_splits)
    then show ?thesis using nc by simp
  qed
qed

lemma main_training_return:
  assumes "snd (main_training c a x) = Inr b"
  shows "\<exists>pre. fst (main_training c a x) = pre @ [Dump_log, Tb_flush, Tb_close, Barrier]"
  using assms
  by (auto simp: main_training_def split: prod.splits sum.splits if_splits)

text \<open>
  Claim C9, as amended. On every exit path, also when \<^verbatim>\<open>main_training\<close> raises, the
  \<^verbatim>\<open>finally\<close> block calls \<^verbatim>\<open>dist.finalize()\<close> right after \<^verbatim>\<open>main_training\<close> ends
  (and then closes standard output and error when they are \<^verbatim>\<open>SyncPrint\<close>), and the
  outcome is that of \<^verbatim>\<open>main_training\<close>. The telemetry sink is flushed and closed at the
  end only when \<^verbatim>\<open>main_training\<close> returns normally; when it raises, the sink is never
  closed and the last call before the raise is not a flush.
\<close>

theorem finalize_on_every_exit:
  "fst (program c a x sync_print) =
      fst (main_training c a x) @ Finalize # (if sync_print then [Close_std] else [])
   \<and> snd (program c a x sync_print) = snd (main_training c a x)
   \<and> (\<forall>b. snd (main_training c a x) = Inr b \<longrightarrow>
         (\<exists>pre. fst (main_training c a x) = pre @ [Dump_log, Tb_flush, Tb_close, Barrier]))
   \<and> (\<forall>e. snd (main_training c a x) = Inl e \<longrightarrow>
         Tb_close \<notin> set (fst (main_training c a x))
         \<and> \<not> (\<exists>pre. fst (main_training c a x) = pre @ [Tb_flush]))"
proof (intro conjI allI impI)
  show "fst (program c a x sync_print) =
      fst (main_training c a x) @ Finalize # (if sync_print then [Close_std] else [])"
    by (simp add: program_def split_beta)
  show "snd (program c a x sync_print) = snd (main_training c a x)"
    by (simp add: program_def split_beta)
next
  fix b assume "snd (main_training c a x) = Inr b"
  then show "\<exists>pre. fst (main_training c a x) = pre @ [Dump_log, Tb_flush, Tb_close, Barrier]"
    by (rule main_training_return)
next
  fix e assume e: "snd (main_training c a x) = Inl e"
  show "Tb_close \<notin> set (fst (main_training c a x))"
    using main_training_raise [OF e] by blast
  show "\<not> (\<exists>pre. fst (main_training c a x) = pre @ [Tb_flush])"
    using main_training_raise [OF e] by blast
qed


theorem finalize_on_every_exit_witness:
  "snd (main_training collab_ex args_zero built_ex) = Inl ZeroDivisionError
   \<and> Tb_close \<notin> set (fst (main_training collab_ex args_zero built_ex))
   \<and> snd (main_training collab_ex args_ex built_ex) =
       Inr \<lparr>best_L_mean = 3, best_L_tail = 4, best_acc_mean = 10, best_acc_tail = 5,
            best_val_loss_mean = 3, best_val_loss_tail = 2, best_val_acc_mean = 1,
            best_val_acc_tail = 1\<rparr>
   \<and> last (fst (main_training collab_ex args_ex built_ex)) = Barrier
   \<and> last (fst (program collab_ex args_ex built_ex False)) = Finalize"
proof -
  have e: "snd (main_training collab_ex args_zero built_ex) = Inl ZeroDivisionError"
    by code_simp
  have r: "snd (main_training collab_ex args_ex built_ex) =
       Inr \<lparr>best_L_mean = 3, best_L_tail = 4, best_acc_mean = 10, best_acc_tail = 5,
            best_val_loss_mean = 3, best_val_loss_tail = 2, best_val_acc_mean = 1,
            best_val_acc_tail = 1\<rparr>"
    by code_simp
  have "Tb_close \<notin> set (fst (main_training collab_ex args_zero built_ex))"
    using finalize_on_every_exit [of collab_ex args_zero built_ex False] e by blast
  moreover have "\<exists>pre. fst (main_training collab_ex args_ex built_ex)
      = pre @ [Dump_log, Tb_flush, Tb_close, Barrier]"
    using finalize_on_every_exit [of collab_ex args_ex built_ex False] r by blast
  then have "last (fst (main_training collab_ex args_ex built_ex)) = Barrier"
    by auto
  moreover have "last (fst (program collab_ex args_ex built_ex False)) = Finalize"
    using finalize_on_every_exit [of collab_ex args_ex built_ex False] by simp
  ultimately show ?thesis using e r by blast
qed

text \<open>
  Claim C9 as stated fails: when an iteration raises (here a zero accumulation count, on
  the master process), or when the process has no logger at all, the program finalises
  the distributed context and flushes nothing.
\<close>

theorem finalize_counterexample:
  "program collab_ex args_zero built_ex False =
     ([Sampler_set_epoch 0, Tb_set_step 0, Lr_wd_annealing 1, Finalize], Inl ZeroDivisionError)
   \<and> Tb_flush \<notin> set (fst (program collab_ex args_zero built_ex False))
   \<and> program collab_ex args_ex built_worker True =
     ([Sampler_set_epoch 0, Finalize, Close_std], Inl AttributeError)
   \<and> Tb_flush \<notin> set (fst (program collab_ex args_ex built_worker True))"
  by code_simp

end
